theory Spec2Isabelle
  imports Complex_Main
begin

section \<open>Python values, exceptions and indexing\<close>

text \<open>
  The exceptions the modelled methods can raise. \<open>Exception\<close> carries the message of a bare
  \<^verbatim>\<open>raise Exception('...')\<close>. Numbers are idealised as reals: rounding of the float32 and
  float64 tensors is outside the model.
\<close>

datatype py_error =
    NameError
  | TypeError
  | IndexError
  | AttributeError
  | AssertionError
  | RuntimeError
  | ValueError
  | LinAlgError
  | ZeroDivisionError
  | UnboundLocalError
  | Exception string

type_synonym vec = "real list"
type_synonym mat = "real list list"

text \<open>Indexing a sequence of length \<open>n\<close> with a Python integer: negative indices count from
  the end, anything outside \<open>[-n, n)\<close> raises IndexError (here \<open>None\<close>).\<close>

definition py_index :: "nat \<Rightarrow> int \<Rightarrow> nat option" where
  "py_index n i =
     (if 0 \<le> i \<and> i < int n then Some (nat i)
      else if - int n \<le> i \<and> i < 0 then Some (nat (i + int n))
      else None)"

text \<open>A user id as the agent receives it, after \<^verbatim>\<open>torch.tensor(user_id)\<close>: a 0-d tensor or a
  1-d tensor. \<^verbatim>\<open>user_id.tolist()[0]\<close> subscripts a Python int for the former (TypeError) and
  an empty list for an empty 1-d tensor (IndexError).\<close>

datatype tensor_id = Scalar int | Vector "int list"

fun tolist_first :: "tensor_id \<Rightarrow> py_error + int" where
  "tolist_first (Scalar u) = Inl TypeError"
| "tolist_first (Vector []) = Inl IndexError"
| "tolist_first (Vector (u # us)) = Inr u"

section \<open>Linear algebra on lists\<close>

text \<open>Vectors are lists of reals, matrices lists of rows. \<open>np_dot_vv\<close>, \<open>np_dot_mv\<close> and
  \<open>np_dot_mm\<close> are \<^verbatim>\<open>np.dot\<close> at the three shapes the code uses it at, on operands whose
  shapes fit; \<open>np_transpose\<close> is \<^verbatim>\<open>.T\<close>. A matrix without rows has lost its width, and its
  transpose is taken as empty. Broadcasting is not modelled.\<close>

definition np_dot_vv :: "vec \<Rightarrow> vec \<Rightarrow> real" where
  "np_dot_vv x y = sum_list (map2 (*) x y)"

definition np_dot_mv :: "mat \<Rightarrow> vec \<Rightarrow> vec" where
  "np_dot_mv m x = map (\<lambda>row. np_dot_vv row x) m"

definition np_transpose :: "mat \<Rightarrow> mat" where
  "np_transpose m =
     (case m of [] \<Rightarrow> []
      | row0 # _ \<Rightarrow> map (\<lambda>j. map (\<lambda>row. row ! j) m) [0..<length row0])"

definition np_dot_mm :: "mat \<Rightarrow> mat \<Rightarrow> mat" where
  "np_dot_mm m1 m2 = map (\<lambda>row. map (\<lambda>col. np_dot_vv row col) (np_transpose m2)) m1"

definition np_eye :: "nat \<Rightarrow> mat" where
  "np_eye d = map (\<lambda>i. map (\<lambda>j. if i = j then 1 else 0) [0..<d]) [0..<d]"

definition np_scale :: "real \<Rightarrow> mat \<Rightarrow> mat" where
  "np_scale c m = map (map ((*) c)) m"

definition np_add :: "mat \<Rightarrow> mat \<Rightarrow> mat" where
  "np_add m1 m2 = map2 (map2 (+)) m1 m2"

definition np_zeros :: "nat \<Rightarrow> vec" where
  "np_zeros d = replicate d 0"

text \<open>\<^verbatim>\<open>np.unique\<close>: the sorted distinct values.\<close>

definition np_unique :: "int list \<Rightarrow> int list" where
  "np_unique xs = sort (remdups xs)"

text \<open>\<^verbatim>\<open>np.argmax\<close> of the flattened scores: the first index of the maximum; an empty
  array raises ValueError.\<close>

fun argmax_from :: "nat \<Rightarrow> real \<Rightarrow> nat \<Rightarrow> vec \<Rightarrow> nat" where
  "argmax_from best bv i [] = best"
| "argmax_from best bv i (x # xs) =
     (if bv < x then argmax_from i x (Suc i) xs else argmax_from best bv (Suc i) xs)"

definition np_argmax :: "vec \<Rightarrow> py_error + int" where
  "np_argmax vals =
     (case vals of [] \<Rightarrow> Inl ValueError
      | x # xs \<Rightarrow> Inr (int (argmax_from 0 x 1 xs)))"

text \<open>Fancy indexing \<^verbatim>\<open>xs[ind]\<close> with an array of non-negative indices.\<close>

definition take_ind :: "'a list \<Rightarrow> nat list \<Rightarrow> py_error + 'a list" where
  "take_ind xs ind =
     (if list_all (\<lambda>i. i < length xs) ind then Inr (map (\<lambda>i. xs ! i) ind)
      else Inl IndexError)"

section \<open>ContextualDataset\<close>

text \<open>
  The buffer of \<^verbatim>\<open>class ContextualDataset\<close>. \<open>contexts\<close>, \<open>scaled_contexts\<close> and \<open>rewards\<close>
  start as \<^verbatim>\<open>None\<close>; \<open>user_ids\<close> and \<open>actions\<close> are Python lists. The type of a stored user
  id is a parameter: the raw buffer holds the ids it is given, the latent buffer dense indices.
\<close>

record 'u dataset =
  ds_context_dim :: nat
  ds_num_actions :: nat
  contexts :: "mat option"
  scaled_contexts :: "mat option"
  rewards :: "mat option"
  user_ids :: "'u list"
  actions :: "int list"
  memory_size :: int
  intercept :: bool

definition new_dataset :: "nat \<Rightarrow> nat \<Rightarrow> int \<Rightarrow> bool \<Rightarrow> 'u dataset" where
  "new_dataset cd na ms ic =
     \<lparr> ds_context_dim = cd, ds_num_actions = na, contexts = None, scaled_contexts = None,
       rewards = None, user_ids = [], actions = [], memory_size = ms, intercept = ic \<rparr>"

text \<open>\<^verbatim>\<open>torch.cat((m, row))\<close> of a stored matrix (or \<^verbatim>\<open>None\<close>: the row becomes the matrix) and
  one more row; rows of another width make torch raise.\<close>

definition cat_row :: "mat option \<Rightarrow> vec \<Rightarrow> py_error + mat" where
  "cat_row m row =
     (case m of None \<Rightarrow> Inr [row]
      | Some rows \<Rightarrow>
          if list_all (\<lambda>r. length r = length row) rows then Inr (rows @ [row])
          else Inl RuntimeError)"

text \<open>The reward row of \<open>add\<close>: \<^verbatim>\<open>r = torch.zeros((1, num_actions)); r[0, action] = float(reward)\<close>.\<close>

definition reward_row :: "nat \<Rightarrow> int \<Rightarrow> real \<Rightarrow> py_error + vec" where
  "reward_row k action reward =
     (case py_index k action of None \<Rightarrow> Inl IndexError
      | Some j \<Rightarrow> Inr ((replicate k 0)[j := reward]))"

text \<open>The rows of an optional matrix, for \<^verbatim>\<open>len\<close> and slicing after it has been assigned.\<close>

definition rows_of :: "mat option \<Rightarrow> mat" where
  "rows_of m = (case m of None \<Rightarrow> [] | Some rows \<Rightarrow> rows)"

text \<open>
  \<^verbatim>\<open>ContextualDataset.add\<close>. The context arrives flattened (\<^verbatim>\<open>reshape(-1)\<close>). The result is the
  exception raised, if any, and the buffer as the call leaves it: the contexts are stored
  before the reward row is built, so an action out of range leaves them one row longer.
\<close>

definition add ::
  "'u dataset \<Rightarrow> 'u \<Rightarrow> vec \<Rightarrow> int \<Rightarrow> real \<Rightarrow> py_error option \<times> 'u dataset" where
  "add ds user_id context action reward =
     (let c = (if intercept ds then context @ [1] else context);
          width = (if intercept ds then ds_context_dim ds + 1 else ds_context_dim ds)
      in if length c \<noteq> width then (Some RuntimeError, ds)
         else case cat_row (contexts ds) c of
           Inl e \<Rightarrow> (Some e, ds)
         | Inr cs \<Rightarrow>
             let ds1 = ds\<lparr>contexts := Some cs\<rparr>
             in case reward_row (ds_num_actions ds) action reward of
               Inl e \<Rightarrow> (Some e, ds1)
             | Inr r \<Rightarrow>
                 (case cat_row (rewards ds1) r of
                   Inl e \<Rightarrow> (Some e, ds1)
                 | Inr rs \<Rightarrow>
                     let ds2 = ds1\<lparr>rewards := Some rs,
                                   actions := actions ds1 @ [action],
                                   user_ids := user_ids ds1 @ [user_id]\<rparr>
                     in if memory_size ds2 \<noteq> - 1 then
                          let ds3 = (if int (length cs) > memory_size ds2
                                     then ds2\<lparr>contexts := Some (drop 1 cs),
                                              rewards := Some (drop 1 rs),
                                              actions := drop 1 (actions ds2),
                                              user_ids := drop 1 (user_ids ds2)\<rparr>
                                     else ds2)
                          in if length (actions ds3) \<noteq> length (rows_of (rewards ds3))
                                \<or> length (actions ds3) \<noteq> length (rows_of (contexts ds3))
                                \<or> length (actions ds3) \<noteq> length (user_ids ds3)
                             then (Some AssertionError, ds3)
                             else (None, ds3)
                        else (None, ds2)))"

text \<open>A sequence of \<open>add\<close> calls, each a tuple (user id, context, action, reward); an
  exception ends the sequence, as it would end the caller.\<close>

fun add_all ::
  "'u dataset \<Rightarrow> ('u \<times> vec \<times> int \<times> real) list \<Rightarrow> py_error option \<times> 'u dataset" where
  "add_all ds [] = (None, ds)"
| "add_all ds ((u, c, k, r) # calls) =
     (case add ds u c k r of
        (Some e, ds') \<Rightarrow> (Some e, ds')
      | (None, ds') \<Rightarrow> add_all ds' calls)"

text \<open>The number of non-zero entries of a reward row.\<close>

definition count_nonzero :: "vec \<Rightarrow> nat" where
  "count_nonzero row = length (filter (\<lambda>x. x \<noteq> 0) row)"

text \<open>
  The buffer invariant: the four stores have one entry per event, every context row has
  the buffer's width, every reward row one entry per action, and every stored action is an
  index that \<open>add\<close> accepted.
\<close>

definition ds_width :: "'u dataset \<Rightarrow> nat" where
  "ds_width ds = (if intercept ds then ds_context_dim ds + 1 else ds_context_dim ds)"

definition ds_inv :: "'u dataset \<Rightarrow> bool" where
  "ds_inv ds \<longleftrightarrow>
     length (user_ids ds) = length (actions ds) \<and>
     length (rows_of (contexts ds)) = length (actions ds) \<and>
     length (rows_of (rewards ds)) = length (actions ds) \<and>
     list_all (\<lambda>row. length row = ds_width ds) (rows_of (contexts ds)) \<and>
     list_all (\<lambda>row. length row = ds_num_actions ds) (rows_of (rewards ds)) \<and>
     list_all (\<lambda>k. py_index (ds_num_actions ds) k \<noteq> None) (actions ds)"

text \<open>The buffer that a call of \<open>add\<close> with a context of \<open>ds_context_dim\<close> entries and an
  action in \<open>[0, num_actions)\<close> leaves: one row more in each store, less the oldest row
  when a finite \<open>memory_size\<close> is exceeded.\<close>

definition added :: "'u dataset \<Rightarrow> 'u \<Rightarrow> vec \<Rightarrow> int \<Rightarrow> real \<Rightarrow> 'u dataset" where
  "added ds u c k r =
     (let cs = rows_of (contexts ds) @ [if intercept ds then c @ [1] else c];
          rs = rows_of (rewards ds) @ [(replicate (ds_num_actions ds) 0)[nat k := r]];
          acts = actions ds @ [k];
          us = user_ids ds @ [u];
          ev = (if memory_size ds \<noteq> - 1 \<and> int (length cs) > memory_size ds then 1 else 0)
      in ds\<lparr>contexts := Some (drop ev cs), rewards := Some (drop ev rs),
             actions := drop ev acts, user_ids := drop ev us\<rparr>)"

text \<open>A call as the docstring of \<open>add\<close> asks for it.\<close>

definition good_call :: "nat \<Rightarrow> nat \<Rightarrow> ('u \<times> vec \<times> int \<times> real) \<Rightarrow> bool" where
  "good_call cd na call =
     (case call of (u, c, k, r) \<Rightarrow> length c = cd \<and> 0 \<le> k \<and> k < int na)"

text \<open>
  The one-hot weights of the batch methods: \<^verbatim>\<open>weights = torch.zeros((n, num_actions))\<close>, then
  \<^verbatim>\<open>weights[a_ind[:, 0], a_ind[:, 1]] = 1.0\<close> for \<^verbatim>\<open>a_ind\<close> the array of the pairs
  \<^verbatim>\<open>(i, val)\<close> of \<^verbatim>\<open>enumerate\<close>. Of an empty list \<^verbatim>\<open>a_ind\<close> is a 1-d array, which two subscripts
  index out of range.
\<close>

definition one_hot_weights :: "nat \<Rightarrow> nat \<Rightarrow> int list \<Rightarrow> py_error + mat" where
  "one_hot_weights n k acts =
     (if acts = [] then Inl IndexError
      else if length acts \<le> n \<and> list_all (\<lambda>v. py_index k v \<noteq> None) acts
      then Inr (map (\<lambda>i. if i < length acts
                          then (replicate k 0)[the (py_index k (acts ! i)) := 1]
                          else replicate k 0) [0..<n])
      else Inl IndexError)"

text \<open>\<^verbatim>\<open>ContextualDataset.get_data\<close>: the rows where the action was played, with the reward
  column of that action.\<close>

definition get_data :: "'u dataset \<Rightarrow> int \<Rightarrow> py_error + ('u list \<times> mat \<times> vec)" where
  "get_data ds action_v =
     (case contexts ds of
        None \<Rightarrow> Inl AttributeError
      | Some cs \<Rightarrow>
          let ind = filter (\<lambda>i. actions ds ! i = action_v) [0..<length (actions ds)]
          in case take_ind (user_ids ds) ind of
               Inl e \<Rightarrow> Inl e
             | Inr us \<Rightarrow>
                 (case take_ind cs ind of
                    Inl e \<Rightarrow> Inl e
                  | Inr z \<Rightarrow>
                      (case rewards ds of
                         None \<Rightarrow> Inl TypeError
                       | Some rs \<Rightarrow>
                           (case take_ind rs ind of
                              Inl e \<Rightarrow> Inl e
                            | Inr rr \<Rightarrow>
                                if list_all (\<lambda>row. py_index (length row) action_v \<noteq> None) rr
                                then Inr (us, z,
                                          map (\<lambda>row. row ! the (py_index (length row) action_v)) rr)
                                else Inl IndexError))))"

text \<open>
  \<^verbatim>\<open>ContextualDataset.get_data_with_weights\<close>. The \<^verbatim>\<open>return\<close> subscripts with \<^verbatim>\<open>ind\<close>, a name
  that neither the function nor the module binds: once the weights are built, evaluating
  the \<^verbatim>\<open>return\<close> expression raises NameError (the stored user ids are taken to be values
  that \<^verbatim>\<open>torch.tensor\<close> converts).
\<close>

definition get_data_with_weights :: "'u dataset \<Rightarrow> py_error + ('u list \<times> mat \<times> mat \<times> mat)" where
  "get_data_with_weights ds =
     (case contexts ds of
        None \<Rightarrow> Inl AttributeError
      | Some cs \<Rightarrow>
          (case one_hot_weights (length cs) (ds_num_actions ds) (actions ds) of
             Inl e \<Rightarrow> Inl e
           | Inr weights \<Rightarrow> Inl NameError))"

text \<open>
  The indices of \<^verbatim>\<open>get_batch_with_weights_recent\<close>. \<open>choice lo n size\<close> is the outcome of
  \<^verbatim>\<open>np.random.choice(range(lo, n), size)\<close>, an array of \<open>size\<close> indices; numpy refuses an
  empty range unless \<open>size\<close> is 0. Under \<^verbatim>\<open>n_recent > 0\<close> the slice assignment
  \<^verbatim>\<open>ind[:n_recent] = range(n - n_recent, n)\<close> overwrites the first entries.
\<close>

definition batch_lo :: "'u dataset \<Rightarrow> nat \<Rightarrow> nat" where
  "batch_lo ds n =
     (if memory_size ds = - 1 then 0 else nat (max 0 (int n - memory_size ds)))"

definition recent_count :: "nat \<Rightarrow> nat \<Rightarrow> int \<Rightarrow> nat" where
  "recent_count batch_size n n_recent =
     (let n_recent1 = (if n_recent > int batch_size then int batch_size else n_recent);
          n_recent2 = (if n_recent1 > int n then int n else n_recent1)
      in nat n_recent2)"

definition batch_ind ::
  "(nat \<Rightarrow> nat \<Rightarrow> nat \<Rightarrow> nat list) \<Rightarrow> 'u dataset \<Rightarrow> nat \<Rightarrow> nat \<Rightarrow> int \<Rightarrow> py_error + nat list" where
  "batch_ind choice ds n batch_size n_recent =
     (if n \<le> batch_lo ds n \<and> batch_size \<noteq> 0 then Inl ValueError
      else let ind = choice (batch_lo ds n) n batch_size
           in if n_recent > 0
              then let k = recent_count batch_size n n_recent
                   in Inr ([n - k..<n] @ drop k ind)
              else Inr ind)"

text \<open>\<^verbatim>\<open>ContextualDataset.get_batch_with_weights_recent\<close>: user ids, contexts, rewards and
  one-hot weights of the rows at the indices.\<close>

definition get_batch_with_weights_recent ::
  "(nat \<Rightarrow> nat \<Rightarrow> nat \<Rightarrow> nat list) \<Rightarrow> 'u dataset \<Rightarrow> nat \<Rightarrow> int \<Rightarrow> bool \<Rightarrow>
   py_error + ('u list \<times> mat \<times> mat \<times> mat)" where
  "get_batch_with_weights_recent choice ds batch_size n_recent scaled =
     (case contexts ds of
        None \<Rightarrow> Inl AttributeError
      | Some cs \<Rightarrow>
          (case batch_ind choice ds (length cs) batch_size n_recent of
             Inl e \<Rightarrow> Inl e
           | Inr ind \<Rightarrow>
               (case take_ind (actions ds) ind of
                  Inl e \<Rightarrow> Inl e
                | Inr sampled_actions \<Rightarrow>
                    (case one_hot_weights batch_size (ds_num_actions ds) sampled_actions of
                       Inl e \<Rightarrow> Inl e
                     | Inr weights \<Rightarrow>
                         (case (if scaled then scaled_contexts ds else Some cs) of
                            None \<Rightarrow> Inl TypeError
                          | Some m \<Rightarrow>
                              (case take_ind m ind of
                                 Inl e \<Rightarrow> Inl e
                               | Inr ctx \<Rightarrow>
                                   (case take_ind (user_ids ds) ind of
                                      Inl e \<Rightarrow> Inl e
                                    | Inr us \<Rightarrow>
                                        (case rewards ds of
                                           None \<Rightarrow> Inl TypeError
                                         | Some rs \<Rightarrow>
                                             (case take_ind rs ind of
                                                Inl e \<Rightarrow> Inl e
                                              | Inr rr \<Rightarrow> Inr (us, ctx, rr, weights))))))))))"

section \<open>Bulk ingestion\<close>

text \<open>\<^verbatim>\<open>contexts.reshape(-1, context_dim)\<close> of the flattened values: rows of \<open>w\<close> entries, or no
  result when the values do not fill whole rows (torch raises).\<close>

definition reshape_rows :: "nat \<Rightarrow> vec \<Rightarrow> mat option" where
  "reshape_rows w xs =
     (if w = 0 \<or> length xs mod w \<noteq> 0 then None
      else Some (map (\<lambda>i. take w (drop (i * w) xs)) [0..<length xs div w]))"

text \<open>\<^verbatim>\<open>torch.cat((m, new))\<close> of a stored matrix (or \<^verbatim>\<open>None\<close>) and a block of rows.\<close>

definition cat_rows :: "mat option \<Rightarrow> mat \<Rightarrow> py_error + mat" where
  "cat_rows m new =
     (case m of None \<Rightarrow> Inr new
      | Some rows \<Rightarrow>
          if list_all (\<lambda>r. list_all (\<lambda>r'. length r = length r') new) rows
          then Inr (rows @ new) else Inl RuntimeError)"

text \<open>
  \<^verbatim>\<open>coo_matrix((rewards, (np.arange(data_length), actions))).toarray()\<close>: scipy infers the shape
  from the indices, one column more than the largest action, and refuses empty and
  negative indices.
\<close>

definition coo_rewards :: "vec \<Rightarrow> int list \<Rightarrow> py_error + mat" where
  "coo_rewards rs acts =
     (if acts = [] \<or> list_ex (\<lambda>k. k < 0) acts then Inl ValueError
      else let w = nat (Max (set acts)) + 1
           in Inr (map (\<lambda>i. (replicate w 0)[nat (acts ! i) := rs ! i]) [0..<length rs]))"

text \<open>
  \<^verbatim>\<open>ContextualDataset._ingest_data\<close>, on array arguments (the contexts flattened). The module
  never imports pandas, and its first statement reads the name \<^verbatim>\<open>pd\<close>: \<open>pd_bound\<close> tells
  whether the session has bound that name. The capacity check takes \<^verbatim>\<open>len(self.rewards)\<close>,
  which raises TypeError while \<^verbatim>\<open>self.rewards\<close> is \<^verbatim>\<open>None\<close>. The numbers formatted into the
  shape message are left out.
\<close>

definition ingest_data ::
  "bool \<Rightarrow> 'u dataset \<Rightarrow> 'u list \<Rightarrow> vec \<Rightarrow> int list \<Rightarrow> vec \<Rightarrow> py_error option \<times> 'u dataset" where
  "ingest_data pd_bound ds new_ids new_contexts new_actions new_rewards =
     (if \<not> pd_bound then (Some NameError, ds)
      else
        let data_length = length new_rewards
        in case (if memory_size ds \<noteq> - 1
                 then (case rewards ds of
                         None \<Rightarrow> Some TypeError
                       | Some rs \<Rightarrow>
                           if int data_length + int (length rs) > memory_size ds
                           then Some (Exception ''Too many examples for specified memory_size.'')
                           else None)
                 else None) of
             Some e \<Rightarrow> (Some e, ds)
           | None \<Rightarrow>
               (case reshape_rows (ds_context_dim ds) new_contexts of
                  None \<Rightarrow> (Some (Exception ''Expected: (data_length, context_dim)''), ds)
                | Some cs0 \<Rightarrow>
                    if intercept ds \<and> length cs0 \<noteq> data_length then (Some RuntimeError, ds)
                    else
                      let cs1 = (if intercept ds then map (\<lambda>row. row @ [1]) cs0 else cs0)
                      in if length cs1 \<noteq> data_length \<or> length new_actions \<noteq> data_length
                         then (Some AssertionError, ds)
                         else case cat_rows (contexts ds) cs1 of
                                Inl e \<Rightarrow> (Some e, ds)
                              | Inr cs \<Rightarrow>
                                  let ds1 = ds\<lparr>contexts := Some cs\<rparr>
                                  in case coo_rewards new_rewards new_actions of
                                       Inl e \<Rightarrow> (Some e, ds1)
                                     | Inr rewards_array \<Rightarrow>
                                         (case cat_rows (rewards ds1) rewards_array of
                                            Inl e \<Rightarrow> (Some e, ds1)
                                          | Inr rs \<Rightarrow>
                                              (None, ds1\<lparr>rewards := Some rs,
                                                         actions := actions ds1 @ new_actions,
                                                         user_ids := user_ids ds1 @ new_ids\<rparr>))))"

section \<open>The agent: Wide\_Deep\_Bandits\<close>

datatype model_type = Deep | Wide | Wide_deep

type_synonym addr = nat

text \<open>
  The attributes of \<^verbatim>\<open>self\<close> that the modelled methods read or write. \<open>self_t\<close>, \<open>self_a\<close> and
  \<open>self_b\<close> are \<^verbatim>\<open>self.t\<close>, \<^verbatim>\<open>self.a\<close> and \<^verbatim>\<open>self.b\<close>. The network's weights are not part of the
  model: the network is reached through function parameters.

  A parameter group is a Python dict, an object on the heap: \<open>param_dict\<close>,
  \<open>initial_param_dict\<close> and \<open>optim_param_groups\<close> (\<^verbatim>\<open>self.optim.param_groups\<close>) are lists of
  addresses of such dicts, and \<open>lr_of\<close> gives the \<^verbatim>\<open>'lr'\<close> entry of the dict at an address.
\<close>

record agent =
  model_type_of :: model_type
  num_actions :: int
  context_dim :: nat
  latent_dim :: nat
  initial_lr_wide :: real
  initial_lr_deep :: real
  lr_wide :: real
  lr_deep :: real
  lr_decay_rate_wide :: real
  lr_decay_rate_deep :: real
  reset_lr :: bool
  batch_size :: nat
  do_scaling :: bool
  param_dict :: "addr list"
  initial_param_dict :: "addr list"
  optim_param_groups :: "addr list"
  lr_of :: "addr \<Rightarrow> real"
  self_t :: int
  update_freq_nn :: int
  update_freq_lr :: int
  num_epochs :: nat
  lambda_prior :: real
  mu :: "vec list"
  cov :: "mat list"
  precision :: "mat list"
  a0 :: real
  b0 :: real
  self_a :: "real list"
  self_b :: "real list"
  data_h :: "tensor_id dataset"
  latent_h :: "nat dataset"
  initial_pulls :: int
  user_dict :: "int \<rightharpoonup> nat"
  current_user_size :: nat

text \<open>The constructor's arguments that the modelled attributes come from.\<close>

record agent_args =
  arg_num_actions :: int
  arg_num_features :: nat
  arg_wide_embed_dim :: nat
  arg_deep_layer_sizes :: "nat list"
  arg_update_freq_nn :: int
  arg_update_freq_lr :: int
  arg_num_epochs :: nat
  arg_model_type :: model_type
  arg_a0 :: real
  arg_b0 :: real
  arg_lambda_prior :: real
  arg_initial_pulls :: int
  arg_initial_lr_wide :: real
  arg_initial_lr_deep :: real
  arg_lr_decay_rate_wide :: real
  arg_lr_decay_rate_deep :: real
  arg_reset_lr :: bool
  arg_batch_size :: nat
  arg_do_scaling :: bool

text \<open>The \<^verbatim>\<open>'lr'\<close> entries of the parameter groups that \<^verbatim>\<open>__init__\<close> builds, in order.\<close>

definition initial_group_lrs :: "agent_args \<Rightarrow> real list" where
  "initial_group_lrs args =
     (case arg_model_type args of
        Deep \<Rightarrow> [arg_initial_lr_deep args]
      | Wide \<Rightarrow> [arg_initial_lr_wide args]
      | Wide_deep \<Rightarrow> [arg_initial_lr_wide args, arg_initial_lr_deep args, 0.01, 0.01])"

text \<open>
  \<^verbatim>\<open>self.latent_dim\<close>, where the construction of the network lets \<^verbatim>\<open>__init__\<close> reach it. With
  an empty \<^verbatim>\<open>deep_layer_sizes\<close> it does not: \<^verbatim>\<open>Deep_Model.build_model\<close> reads \<^verbatim>\<open>out_dim\<close>, which
  its loop never bound (UnboundLocalError), and \<^verbatim>\<open>Wide_and_Deep_Model.__init__\<close> indexes
  \<^verbatim>\<open>deep_layer_sizes[-1]\<close> first (IndexError).
\<close>

definition initial_latent_dim :: "agent_args \<Rightarrow> py_error + nat" where
  "initial_latent_dim args =
     (case arg_model_type args of
        Wide \<Rightarrow> Inr (arg_wide_embed_dim args)
      | Deep \<Rightarrow> (if arg_deep_layer_sizes args = [] then Inl UnboundLocalError
                 else Inr (last (arg_deep_layer_sizes args)))
      | Wide_deep \<Rightarrow> (if arg_deep_layer_sizes args = [] then Inl IndexError
                      else Inr (last (arg_deep_layer_sizes args) + arg_wide_embed_dim args)))"

text \<open>
  \<^verbatim>\<open>Wide_Deep_Bandits.__init__\<close>. The list \<^verbatim>\<open>param_dict\<close> is bound to both \<^verbatim>\<open>self.param_dict\<close> and
  \<^verbatim>\<open>self.initial_param_dict\<close>: one list of the same dict objects, here the addresses
  \<open>0, 1, ...\<close>. \<^verbatim>\<open>torch.optim.RMSprop(self.param_dict)\<close> keeps the dicts it is given as its
  \<^verbatim>\<open>param_groups\<close>. \<^verbatim>\<open>1.0 / self.lambda_prior\<close> is evaluated once per action.
\<close>

definition new_agent :: "agent_args \<Rightarrow> py_error + agent" where
  "new_agent args =
     (case initial_latent_dim args of
        Inl e \<Rightarrow> Inl e
      | Inr ld \<Rightarrow>
          if arg_lambda_prior args = 0 \<and> 0 < arg_num_actions args then Inl ZeroDivisionError
          else
            let k = nat (arg_num_actions args);
                groups = [0..<length (initial_group_lrs args)]
            in Inr \<lparr> model_type_of = arg_model_type args,
                     num_actions = arg_num_actions args,
                     context_dim = arg_num_features args,
                     latent_dim = ld,
                     initial_lr_wide = arg_initial_lr_wide args,
                     initial_lr_deep = arg_initial_lr_deep args,
                     lr_wide = arg_initial_lr_wide args,
                     lr_deep = arg_initial_lr_deep args,
                     lr_decay_rate_wide = arg_lr_decay_rate_wide args,
                     lr_decay_rate_deep = arg_lr_decay_rate_deep args,
                     reset_lr = arg_reset_lr args,
                     batch_size = arg_batch_size args,
                     do_scaling = arg_do_scaling args,
                     param_dict = groups,
                     initial_param_dict = groups,
                     optim_param_groups = groups,
                     lr_of = (\<lambda>i. if i < length (initial_group_lrs args)
                                     then initial_group_lrs args ! i else 0),
                     self_t = 0,
                     update_freq_nn = arg_update_freq_nn args,
                     update_freq_lr = arg_update_freq_lr args,
                     num_epochs = arg_num_epochs args,
                     lambda_prior = arg_lambda_prior args,
                     mu = replicate k (np_zeros ld),
                     cov = replicate k (np_scale (1 / arg_lambda_prior args) (np_eye ld)),
                     precision = replicate k (np_scale (arg_lambda_prior args) (np_eye ld)),
                     a0 = arg_a0 args,
                     b0 = arg_b0 args,
                     self_a = replicate k (arg_a0 args),
                     self_b = replicate k (arg_b0 args),
                     data_h = new_dataset (arg_num_features args) k (- 1) False,
                     latent_h = new_dataset ld k (- 1) False,
                     initial_pulls = arg_initial_pulls args,
                     user_dict = [0 \<mapsto> 0],
                     current_user_size = 1 \<rparr>)"

subsection \<open>The user registry\<close>

text \<open>\<^verbatim>\<open>lookup_one_user_idx\<close>: an id that is not a key of \<^verbatim>\<open>user_dict\<close> gives the dummy index 0.\<close>

definition lookup_one_user_idx :: "agent \<Rightarrow> tensor_id \<Rightarrow> py_error + nat" where
  "lookup_one_user_idx ag user_id =
     (case tolist_first user_id of
        Inl e \<Rightarrow> Inl e
      | Inr u \<Rightarrow> (case user_dict ag u of None \<Rightarrow> Inr 0 | Some i \<Rightarrow> Inr i))"

text \<open>\<^verbatim>\<open>update_user_dict\<close>; it raises, if at all, before it changes anything.\<close>

definition update_user_dict :: "agent \<Rightarrow> tensor_id \<Rightarrow> py_error + agent" where
  "update_user_dict ag user_id =
     (case tolist_first user_id of
        Inl e \<Rightarrow> Inl e
      | Inr u \<Rightarrow>
          (case user_dict ag u of
             None \<Rightarrow> Inr (ag\<lparr>user_dict := (user_dict ag)(u \<mapsto> current_user_size ag),
                              current_user_size := current_user_size ag + 1\<rparr>)
           | Some i \<Rightarrow> Inr ag))"

text \<open>A sequence of registrations, as successive \<^verbatim>\<open>update\<close> calls make them; a call that
  raises leaves the registry as it was.\<close>

fun register_all :: "agent \<Rightarrow> tensor_id list \<Rightarrow> agent" where
  "register_all ag [] = ag"
| "register_all ag (u # us) =
     register_all (case update_user_dict ag u of Inl e \<Rightarrow> ag | Inr ag' \<Rightarrow> ag') us"

subsection \<open>Thompson sampling and action selection\<close>

text \<open>
  The random draws are parameters. \<open>mvn n mean c\<close> is the outcome of the \<open>n\<close>-th call (from 0)
  that one \<^verbatim>\<open>_sample\<close> makes to \<^verbatim>\<open>np.random.multivariate_normal\<close>: a weight vector or the
  exception raised, \<open>LinAlgError\<close> for a covariance it cannot factor. \<open>rvs\<close> is
  \<^verbatim>\<open>invgamma.rvs\<close>. \<open>repr\<close> is \<^verbatim>\<open>get_representation\<close>, the network's latent vector.
\<close>

type_synonym mvn_draw = "nat \<Rightarrow> vec \<Rightarrow> mat \<Rightarrow> py_error + vec"

text \<open>The body of the \<^verbatim>\<open>try\<close>: one draw per action, in order, appended to \<^verbatim>\<open>beta_s\<close>. The first
  exception leaves the loop with the draws made so far.\<close>

fun sample_loop ::
  "mvn_draw \<Rightarrow> agent \<Rightarrow> vec \<Rightarrow> nat list \<Rightarrow> vec list \<Rightarrow> py_error option \<times> vec list" where
  "sample_loop mvn ag sigma2_s [] beta_s = (None, beta_s)"
| "sample_loop mvn ag sigma2_s (i # rest) beta_s =
     (if length (mu ag) \<le> i \<or> length sigma2_s \<le> i \<or> length (cov ag) \<le> i
      then (Some IndexError, beta_s)
      else case mvn i (mu ag ! i) (np_scale (sigma2_s ! i) (cov ag ! i)) of
             Inl e \<Rightarrow> (Some e, beta_s)
           | Inr w \<Rightarrow> sample_loop mvn ag sigma2_s rest (beta_s @ [w]))"

text \<open>The handler's loop: a standard-normal draw for every action, appended to the
  \<^verbatim>\<open>beta_s\<close> that the \<^verbatim>\<open>try\<close> left. \<open>n0\<close> counts the draws made before.\<close>

fun fallback_loop ::
  "mvn_draw \<Rightarrow> nat \<Rightarrow> nat \<Rightarrow> nat list \<Rightarrow> vec list \<Rightarrow> py_error + vec list" where
  "fallback_loop mvn d n0 [] beta_s = Inr beta_s"
| "fallback_loop mvn d n0 (i # rest) beta_s =
     (case mvn (n0 + i) (np_zeros d) (np_eye d) of
        Inl e \<Rightarrow> Inl e
      | Inr w \<Rightarrow> fallback_loop mvn d n0 rest (beta_s @ [w]))"

text \<open>\<^verbatim>\<open>e.message\<close> in the handler's second \<^verbatim>\<open>print\<close>: exceptions have no attribute
  \<^verbatim>\<open>message\<close> in Python 3, and numpy's \<^verbatim>\<open>LinAlgError\<close> defines none, so the attribute
  lookup raises.\<close>

definition exc_message :: "py_error \<Rightarrow> py_error + string" where
  "exc_message e = Inl AttributeError"

text \<open>The scores \<^verbatim>\<open>(beta_s[i, :, :] * z_context).sum(axis=-1)\<close> for \<open>i\<close> in
  \<^verbatim>\<open>range(num_actions)\<close>.\<close>

definition ts_vals :: "nat \<Rightarrow> vec list \<Rightarrow> vec \<Rightarrow> py_error + vec" where
  "ts_vals k beta_s z =
     (if k \<le> length beta_s then Inr (map (\<lambda>i. np_dot_vv (beta_s ! i) z) [0..<k])
      else Inl IndexError)"

text \<open>\<^verbatim>\<open>Wide_Deep_Bandits._sample\<close> with \<^verbatim>\<open>parallelize=False\<close>, as \<open>action\<close> calls it.\<close>

definition sample ::
  "(vec \<Rightarrow> py_error + vec) \<Rightarrow> mvn_draw \<Rightarrow> (nat \<Rightarrow> vec \<Rightarrow> py_error + vec) \<Rightarrow>
   agent \<Rightarrow> tensor_id \<Rightarrow> vec \<Rightarrow> py_error + vec" where
  "sample rvs mvn repr ag user_id context =
     (case mu ag of
        [] \<Rightarrow> Inl IndexError
      | mu0 # _ \<Rightarrow>
          let d = length mu0;
              k = nat (num_actions ag)
          in case rvs (self_a ag) of
               Inl e \<Rightarrow> Inl e
             | Inr g \<Rightarrow>
                 let sigma2_s = map2 (*) (self_b ag) g
                 in case (case sample_loop mvn ag sigma2_s [0..<k] [] of
                            (None, beta_s) \<Rightarrow> Inr beta_s
                          | (Some e, beta_s) \<Rightarrow>
                              if e = LinAlgError then
                                (case exc_message e of
                                   Inl e' \<Rightarrow> Inl e'
                                 | Inr msg \<Rightarrow>
                                     fallback_loop mvn d (Suc (length beta_s)) [0..<k] beta_s)
                              else Inl e) of
                      Inl e \<Rightarrow> Inl e
                    | Inr beta_s \<Rightarrow>
                        (case lookup_one_user_idx ag user_id of
                           Inl e \<Rightarrow> Inl e
                         | Inr user_idx \<Rightarrow>
                             (case repr user_idx context of
                                Inl e \<Rightarrow> Inl e
                              | Inr z_context \<Rightarrow> ts_vals k beta_s z_context)))"

definition possible_methods :: "string list" where
  "possible_methods = [''BLR_TS'', ''BLR'', ''forward'']"

text \<open>
  \<^verbatim>\<open>Wide_Deep_Bandits.action\<close>. \<open>scale\<close> is the rescaling of the context by the raw buffer's
  statistics and \<open>expected_values\<close> the method of that name; both go through the network
  and are parameters.
\<close>

definition action ::
  "(agent \<Rightarrow> vec \<Rightarrow> py_error + vec) \<Rightarrow>
   (agent \<Rightarrow> tensor_id \<Rightarrow> vec \<Rightarrow> string \<Rightarrow> py_error + vec) \<Rightarrow>
   (vec \<Rightarrow> py_error + vec) \<Rightarrow> mvn_draw \<Rightarrow> (nat \<Rightarrow> vec \<Rightarrow> py_error + vec) \<Rightarrow>
   agent \<Rightarrow> tensor_id \<Rightarrow> vec \<Rightarrow> string \<Rightarrow> py_error + int" where
  "action scale expected_values rvs mvn repr ag user_id context method =
     (if method \<notin> set possible_methods then Inl NameError
      else if self_t ag < num_actions ag * initial_pulls ag
      then Inr (self_t ag mod num_actions ag)
      else case (if do_scaling ag then scale ag context else Inr context) of
             Inl e \<Rightarrow> Inl e
           | Inr context' \<Rightarrow>
               (case (if method = ''forward''
                      then expected_values ag user_id context' ''forward''
                      else if method = ''BLR''
                      then expected_values ag user_id context' ''BLR''
                      else sample rvs mvn repr ag user_id context') of
                  Inl e \<Rightarrow> Inl e
                | Inr vals \<Rightarrow> np_argmax vals))"

section \<open>Learning rates\<close>

text \<open>Writing the \<^verbatim>\<open>'lr'\<close> entry of the dict at an address.\<close>

definition set_lr :: "agent \<Rightarrow> addr \<Rightarrow> real \<Rightarrow> agent" where
  "set_lr ag p v = ag\<lparr>lr_of := (lr_of ag)(p := v)\<rparr>"

text \<open>The loop of \<open>assign_lr\<close>:
  \<^verbatim>\<open>self.optim.param_groups[i]['lr'] = src[i]['lr']\<close> for \<open>i\<close> in \<^verbatim>\<open>range(len(src))\<close>.\<close>

fun assign_loop :: "agent \<Rightarrow> addr list \<Rightarrow> nat list \<Rightarrow> py_error option \<times> agent" where
  "assign_loop ag src [] = (None, ag)"
| "assign_loop ag src (i # rest) =
     (if length (optim_param_groups ag) \<le> i then (Some IndexError, ag)
      else assign_loop (set_lr ag (optim_param_groups ag ! i) (lr_of ag (src ! i))) src rest)"

text \<open>\<^verbatim>\<open>Wide_Deep_Bandits.assign_lr\<close>.\<close>

definition assign_lr :: "agent \<Rightarrow> bool \<Rightarrow> py_error option \<times> agent" where
  "assign_lr ag reset =
     (if reset
      then assign_loop ag (initial_param_dict ag) [0..<length (initial_param_dict ag)]
      else assign_loop ag (param_dict ag) [0..<length (param_dict ag)])"

text \<open>\<^verbatim>\<open>self.param_dict[i]['lr'] = v\<close>.\<close>

definition set_param_lr :: "agent \<Rightarrow> nat \<Rightarrow> real \<Rightarrow> py_error + agent" where
  "set_param_lr ag i v =
     (if length (param_dict ag) \<le> i then Inl IndexError
      else Inr (set_lr ag (param_dict ag ! i) v))"

text \<open>
  \<^verbatim>\<open>Wide_Deep_Bandits.do_step\<close> up to its call of \<open>assign_lr\<close>: the inverse-time decay of the
  two rates, their storing in \<^verbatim>\<open>self.param_dict\<close> and their assignment to the optimizer. The
  forward pass, the loss and the optimizer's step that follow go through the network and
  leave the learning rates alone; they are not modelled.
\<close>

definition do_step :: "agent \<Rightarrow> nat \<Rightarrow> py_error option \<times> agent" where
  "do_step ag step =
     (if 1 + lr_decay_rate_wide ag * real step = 0 then (Some ZeroDivisionError, ag)
      else
        let ag1 = ag\<lparr>lr_wide := initial_lr_wide ag * (1 / (1 + lr_decay_rate_wide ag * real step))\<rparr>
        in if 1 + lr_decay_rate_deep ag * real step = 0 then (Some ZeroDivisionError, ag1)
           else
             let ag2 = ag1\<lparr>lr_deep :=
                            initial_lr_deep ag * (1 / (1 + lr_decay_rate_deep ag * real step))\<rparr>
             in case (case model_type_of ag2 of
                        Deep \<Rightarrow> set_param_lr ag2 0 (lr_deep ag2)
                      | Wide \<Rightarrow> set_param_lr ag2 0 (lr_wide ag2)
                      | Wide_deep \<Rightarrow>
                          (case set_param_lr ag2 0 (lr_wide ag2) of
                             Inl e \<Rightarrow> Inl e
                           | Inr ag3 \<Rightarrow> set_param_lr ag3 1 (lr_deep ag3))) of
                  Inl e \<Rightarrow> (Some e, ag2)
                | Inr ag4 \<Rightarrow> assign_lr ag4 False)"

text \<open>The steps of \<^verbatim>\<open>Wide_Deep_Bandits.train\<close>: one \<open>do_step\<close> per step index unless
  \<^verbatim>\<open>self.t\<close> is 1. The sampling of the batches is not modelled.\<close>

fun train_steps :: "agent \<Rightarrow> nat list \<Rightarrow> py_error option \<times> agent" where
  "train_steps ag [] = (None, ag)"
| "train_steps ag (step # rest) =
     (if self_t ag \<noteq> 1
      then (case do_step ag step of
              (Some e, ag') \<Rightarrow> (Some e, ag')
            | (None, ag') \<Rightarrow> train_steps ag' rest)
      else train_steps ag rest)"

definition train :: "agent \<Rightarrow> nat \<Rightarrow> py_error option \<times> agent" where
  "train ag num_steps = train_steps ag [0..<num_steps]"

text \<open>The first statement of \<^verbatim>\<open>_retrain_nn\<close>, and \<^verbatim>\<open>_retrain_nn\<close> as far as the learning
  rates go (the latent buffer's refresh is not modelled).\<close>

definition retrain_nn_reset :: "agent \<Rightarrow> py_error option \<times> agent" where
  "retrain_nn_reset ag = (if reset_lr ag then assign_lr ag True else (None, ag))"

definition retrain_nn :: "agent \<Rightarrow> py_error option \<times> agent" where
  "retrain_nn ag =
     (case retrain_nn_reset ag of
        (Some e, ag') \<Rightarrow> (Some e, ag')
      | (None, ag') \<Rightarrow> train ag' (num_epochs ag'))"

section \<open>Posterior refresh\<close>

text \<open>A store \<^verbatim>\<open>xs[i] = v\<close> into a Python list.\<close>

definition py_store :: "'a list \<Rightarrow> int \<Rightarrow> 'a \<Rightarrow> 'a list option" where
  "py_store xs i v =
     (case py_index (length xs) i of None \<Rightarrow> None | Some j \<Rightarrow> Some (xs[j := v]))"

text \<open>
  One iteration of the loop of \<^verbatim>\<open>_update_actions\<close>. \<open>linalg_inv\<close> is \<^verbatim>\<open>np.linalg.inv\<close>: the
  inverse, or \<open>None\<close> where numpy raises \<open>LinAlgError\<close>. The five stores come last, in the
  order of the source.
\<close>

definition update_one :: "(mat \<Rightarrow> mat option) \<Rightarrow> agent \<Rightarrow> int \<Rightarrow> py_error option \<times> agent" where
  "update_one linalg_inv ag action_v =
     (case get_data (latent_h ag) action_v of
        Inl e \<Rightarrow> (Some e, ag)
      | Inr (us, z, y) \<Rightarrow>
          let s = np_dot_mm (np_transpose z) z;
              precision_a = np_add s (np_scale (lambda_prior ag) (np_eye (latent_dim ag)))
          in case linalg_inv precision_a of
               None \<Rightarrow> (Some LinAlgError, ag)
             | Some cov_a \<Rightarrow>
                 let mu_a = np_dot_mv cov_a (np_dot_mv (np_transpose z) y);
                     a_post = a0 ag + real (length z) / 2;
                     b_upd = 0.5 * np_dot_vv y y
                               - 0.5 * np_dot_vv mu_a (np_dot_mv precision_a mu_a);
                     b_post = b0 ag + b_upd
                 in case py_store (mu ag) action_v mu_a of
                      None \<Rightarrow> (Some IndexError, ag)
                    | Some mu' \<Rightarrow>
                        let ag1 = ag\<lparr>mu := mu'\<rparr>
                        in case py_store (cov ag1) action_v cov_a of
                             None \<Rightarrow> (Some IndexError, ag1)
                           | Some cov' \<Rightarrow>
                               let ag2 = ag1\<lparr>cov := cov'\<rparr>
                               in case py_store (precision ag2) action_v precision_a of
                                    None \<Rightarrow> (Some IndexError, ag2)
                                  | Some precision' \<Rightarrow>
                                      let ag3 = ag2\<lparr>precision := precision'\<rparr>
                                      in case py_store (self_a ag3) action_v a_post of
                                           None \<Rightarrow> (Some IndexError, ag3)
                                         | Some a' \<Rightarrow>
                                             let ag4 = ag3\<lparr>self_a := a'\<rparr>
                                             in case py_store (self_b ag4) action_v b_post of
                                                  None \<Rightarrow> (Some IndexError, ag4)
                                                | Some b' \<Rightarrow> (None, ag4\<lparr>self_b := b'\<rparr>))"

fun update_loop :: "(mat \<Rightarrow> mat option) \<Rightarrow> agent \<Rightarrow> int list \<Rightarrow> py_error option \<times> agent" where
  "update_loop linalg_inv ag [] = (None, ag)"
| "update_loop linalg_inv ag (action_v # rest) =
     (case update_one linalg_inv ag action_v of
        (Some e, ag') \<Rightarrow> (Some e, ag')
      | (None, ag') \<Rightarrow> update_loop linalg_inv ag' rest)"

text \<open>\<^verbatim>\<open>Wide_Deep_Bandits._update_actions\<close>.\<close>

definition update_actions :: "(mat \<Rightarrow> mat option) \<Rightarrow> agent \<Rightarrow> py_error option \<times> agent" where
  "update_actions linalg_inv ag =
     update_loop linalg_inv ag (np_unique (actions (latent_h ag)))"

text \<open>
  The closed form in the specification's words: \<open>Z\<close> stacks the latent vectors and \<open>y\<close> the
  observed rewards of the rows whose action equals \<open>k\<close>; then
  \<open>precision = Z\<^sup>T Z + lambda I\<close>, \<open>cov = inverse precision\<close>, \<open>mu = cov Z\<^sup>T y\<close>,
  \<open>a = a0 + rows(Z) / 2\<close> and \<open>b = b0 + 0.5 y\<^sup>T y - 0.5 mu\<^sup>T precision mu\<close>.
\<close>

definition design_matrix :: "'u dataset \<Rightarrow> int \<Rightarrow> mat" where
  "design_matrix ds k =
     map snd (filter (\<lambda>(k', row). k' = k) (zip (actions ds) (rows_of (contexts ds))))"

definition targets :: "'u dataset \<Rightarrow> int \<Rightarrow> vec" where
  "targets ds k =
     map (\<lambda>(k', row). row ! nat k)
       (filter (\<lambda>(k', row). k' = k) (zip (actions ds) (rows_of (rewards ds))))"

definition closed_form ::
  "(mat \<Rightarrow> mat option) \<Rightarrow> real \<Rightarrow> real \<Rightarrow> real \<Rightarrow> nat \<Rightarrow> mat \<Rightarrow> vec \<Rightarrow>
   (vec \<times> mat \<times> mat \<times> real \<times> real) option" where
  "closed_form linalg_inv lam a_0 b_0 d Z y =
     (let P = np_add (np_dot_mm (np_transpose Z) Z) (np_scale lam (np_eye d))
      in case linalg_inv P of
           None \<Rightarrow> None
         | Some C \<Rightarrow>
             let m = np_dot_mv C (np_dot_mv (np_transpose Z) y)
             in Some (m, C, P, a_0 + real (length Z) / 2,
                      b_0 + 0.5 * np_dot_vv y y - 0.5 * np_dot_vv m (np_dot_mv P m)))"

section \<open>Concrete instances\<close>

text \<open>The constructor's arguments of a small agent, two actions and one warm-up pull each,
  that decays its learning rates and trains two steps per retrain.\<close>

definition demo_args :: agent_args where
  "demo_args =
     \<lparr> arg_num_actions = 2, arg_num_features = 1, arg_wide_embed_dim = 1,
       arg_deep_layer_sizes = [1], arg_update_freq_nn = 1, arg_update_freq_lr = 1,
       arg_num_epochs = 2, arg_model_type = Wide_deep, arg_a0 = 6, arg_b0 = 6,
       arg_lambda_prior = 1 / 4, arg_initial_pulls = 1, arg_initial_lr_wide = 1,
       arg_initial_lr_deep = 1, arg_lr_decay_rate_wide = 1, arg_lr_decay_rate_deep = 1,
       arg_reset_lr = True, arg_batch_size = 2, arg_do_scaling = True \<rparr>"

definition demo_agent :: agent where
  "demo_agent = (case new_agent demo_args of Inr ag \<Rightarrow> ag)"

text \<open>A buffer of three events, as three \<open>add\<close> calls leave it.\<close>

definition demo_buffer :: "int dataset" where
  "demo_buffer =
     (new_dataset 1 2 (- 1) False)
       \<lparr>contexts := Some [[1], [2], [3]], rewards := Some [[5, 0], [0, 3], [4, 0]],
        actions := [0, 1, 0], user_ids := [7, 8, 9]\<rparr>"

text \<open>Outcomes of the random draws for \<open>demo_agent\<close> with non-zero posterior means:
  every inverse-gamma draw is 1; a weight draw returns its mean, or fails at one call.\<close>

definition demo_rvs :: "vec \<Rightarrow> py_error + vec" where
  "demo_rvs xs = Inr (map (\<lambda>x. 1) xs)"

definition mvn_mean :: mvn_draw where
  "mvn_mean n m c = Inr m"

definition mvn_failing_at :: "nat \<Rightarrow> mvn_draw" where
  "mvn_failing_at f n m c = (if n = f then Inl LinAlgError else Inr m)"

definition demo_repr :: "nat \<Rightarrow> vec \<Rightarrow> py_error + vec" where
  "demo_repr i c = Inr [1, 1]"

definition trained_agent :: agent where
  "trained_agent = demo_agent\<lparr>mu := [[1, 2], [3, 4]]\<rparr>"

text \<open>An agent with a latent dimension of 1 whose latent buffer holds two events of action
  0, and the inverse of a 1 x 1 matrix.\<close>

definition inv_1x1 :: "mat \<Rightarrow> mat option" where
  "inv_1x1 m = (case m of [[x]] \<Rightarrow> if x = 0 then None else Some [[1 / x]] | _ \<Rightarrow> None)"

definition refresh_agent :: agent where
  "refresh_agent =
     (case new_agent (demo_args\<lparr>arg_model_type := Wide\<rparr>) of
        Inr ag \<Rightarrow>
          ag\<lparr>latent_h := (new_dataset 1 2 (- 1) False)
                  \<lparr>contexts := Some [[1], [2]], rewards := Some [[3, 0], [5, 0]],
                   actions := [0, 0], user_ids := [0, 0]\<rparr>\<rparr>)"

section \<open>Properties of the registry and of action selection\<close>

lemma update_user_dict_keeps:
  assumes "update_user_dict ag uid = Inr ag'" and "user_dict ag u = Some i"
  shows "user_dict ag' u = Some i"
  using assms
  by (auto simp: update_user_dict_def split: sum.splits option.splits)

lemma update_user_dict_ran:
  assumes "update_user_dict ag uid = Inr ag'"
    and "ran (user_dict ag) = {0..<current_user_size ag}"
  shows "ran (user_dict ag') = {0..<current_user_size ag'}"
proof (cases "tolist_first uid")
  case (Inl e)
  with assms(1) show ?thesis by (simp add: update_user_dict_def)
next
  case (Inr u)
  show ?thesis
  proof (cases "user_dict ag u")
    case (Some i)
    with Inr assms show ?thesis by (simp add: update_user_dict_def)
  next
    case None
    with Inr assms(1) have ag': "ag' = ag\<lparr>user_dict := (user_dict ag)(u \<mapsto> current_user_size ag),
                              current_user_size := current_user_size ag + 1\<rparr>"
      by (simp add: update_user_dict_def)
    have "ran ((user_dict ag)(u \<mapsto> current_user_size ag))
            = insert (current_user_size ag) (ran (user_dict ag))"
      using None by simp
    with assms(2) show ?thesis
      unfolding ag' by (simp add: atLeast0_lessThan_Suc)
  qed
qed

lemma register_all_keeps:
  "user_dict ag u = Some i \<Longrightarrow> user_dict (register_all ag us) u = Some i"
proof (induction us arbitrary: ag)
  case Nil
  then show ?case by simp
next
  case (Cons x xs)
  show ?case
  proof (cases "update_user_dict ag x")
    case (Inl e)
    with Cons show ?thesis by simp
  next
    case (Inr ag')
    from update_user_dict_keeps[OF Inr Cons.prems] Cons.IH Inr show ?thesis by simp
  qed
qed

lemma register_all_ran:
  "ran (user_dict ag) = {0..<current_user_size ag} \<Longrightarrow>
   ran (user_dict (register_all ag us)) = {0..<current_user_size (register_all ag us)}"
proof (induction us arbitrary: ag)
  case Nil
  then show ?case by simp
next
  case (Cons x xs)
  show ?case
  proof (cases "update_user_dict ag x")
    case (Inl e)
    with Cons show ?thesis by simp
  next
    case (Inr ag')
    from update_user_dict_ran[OF Inr Cons.prems] Cons.IH Inr show ?thesis by simp
  qed
qed

lemma register_all_append:
  "register_all ag (us @ vs) = register_all (register_all ag us) vs"
  by (induction us arbitrary: ag) simp_all

lemma new_agent_registry:
  "new_agent args = Inr ag \<Longrightarrow> user_dict ag = [0 \<mapsto> 0] \<and> current_user_size ag = 1"
  by (auto simp: new_agent_def Let_def split: sum.splits if_splits)

lemma new_agent_config:
  assumes "new_agent args = Inr ag"
  shows "num_actions ag = arg_num_actions args"
    and "initial_pulls ag = arg_initial_pulls args"
    and "self_t ag = 0"
  using assms by (auto simp: new_agent_def Let_def split: sum.splits if_splits)

lemma demo_agent_new: "new_agent demo_args = Inr demo_agent"
  by (simp add: demo_agent_def new_agent_def demo_args_def initial_latent_dim_def Let_def)

lemma demo_agent_registry:
  "user_dict demo_agent = [0 \<mapsto> 0]" "current_user_size demo_agent = 1"
  using new_agent_registry[OF demo_agent_new] by simp_all

text \<open>
  C2 (warm-up): while \<open>t < num_actions * initial_pulls\<close>, \<open>action\<close> called with any of the
  three valid methods returns \<open>t mod num_actions\<close>, whatever the user id, the context, the
  scaling, the network, the random draws and the rest of the agent's state (buffers,
  posterior, registry) are.
\<close>

theorem action_warm_up:
  assumes "method \<in> set possible_methods"
    and "self_t ag < num_actions ag * initial_pulls ag"
  shows "action scale expected_values rvs mvn repr ag user_id context method
           = Inr (self_t ag mod num_actions ag)"
  using assms by (simp add: action_def)

theorem action_warm_up_witness:
  "''BLR'' \<in> set possible_methods \<and>
   self_t (demo_agent\<lparr>self_t := 1\<rparr>)
     < num_actions (demo_agent\<lparr>self_t := 1\<rparr>) * initial_pulls (demo_agent\<lparr>self_t := 1\<rparr>) \<and>
   action (\<lambda>ag c. Inl RuntimeError) (\<lambda>ag u c m. Inl RuntimeError) (\<lambda>v. Inl ValueError)
          (\<lambda>n m c. Inl LinAlgError) (\<lambda>i c. Inl RuntimeError)
          (demo_agent\<lparr>self_t := 1\<rparr>) (Scalar 7) [3] ''BLR'' = Inr 1"
proof -
  have m: "''BLR'' \<in> set possible_methods" by (simp add: possible_methods_def)
  have d: "num_actions demo_agent = 2" "initial_pulls demo_agent = 1"
    using new_agent_config[OF demo_agent_new] by (simp_all add: demo_args_def)
  have t: "self_t (demo_agent\<lparr>self_t := 1\<rparr>)
     < num_actions (demo_agent\<lparr>self_t := 1\<rparr>) * initial_pulls (demo_agent\<lparr>self_t := 1\<rparr>)"
    by (simp add: d)
  show ?thesis
    using action_warm_up[OF m t, of "\<lambda>ag c. Inl RuntimeError" "\<lambda>ag u c m. Inl RuntimeError"
        "\<lambda>v. Inl ValueError" "\<lambda>n m c. Inl LinAlgError" "\<lambda>i c. Inl RuntimeError" "Scalar 7" "[3]"]
      m t by (simp add: d)
qed

text \<open>
  C6 (registry), as the code has it: an id reaches the registry as
  \<^verbatim>\<open>user_id.tolist()[0]\<close>, the first entry of a 1-d tensor. In every registry reached from the
  constructor's by a sequence of registrations, a lookup of such an id that is not
  registered returns 0 and does not raise; a registered id is looked up at the same index
  after any further registrations; one more registration, of this id or another, keeps a
  registered id's index; an unregistered id is registered at \<open>current_user_size\<close>, which no
  id holds, the indices held being exactly those below it; and no key is ever dropped. An
  id given as a 0-d tensor, which is what \<^verbatim>\<open>torch.tensor\<close> makes of a plain integer, makes
  lookup and registration raise TypeError, and an empty tensor IndexError.
\<close>

theorem registry_monotone:
  assumes "new_agent args = Inr ag0"
  shows "let ag = register_all ag0 us in
     (\<forall>u rest. user_dict ag u = None \<longrightarrow>
          lookup_one_user_idx ag (Vector (u # rest)) = Inr 0) \<and>
     (\<forall>u rest i vs. user_dict ag u = Some i \<longrightarrow>
          lookup_one_user_idx ag (Vector (u # rest)) = Inr i \<and>
          lookup_one_user_idx (register_all ag vs) (Vector (u # rest)) = Inr i) \<and>
     (\<forall>u i uid ag'. user_dict ag u = Some i \<and> update_user_dict ag uid = Inr ag' \<longrightarrow>
          user_dict ag' u = Some i) \<and>
     (\<forall>u rest. user_dict ag u = None \<longrightarrow>
          (\<exists>ag'. update_user_dict ag (Vector (u # rest)) = Inr ag' \<and>
                 user_dict ag' u = Some (current_user_size ag) \<and>
                 current_user_size ag' = current_user_size ag + 1)) \<and>
     ran (user_dict ag) = {0..<current_user_size ag} \<and>
     (\<forall>vs. dom (user_dict ag) \<subseteq> dom (user_dict (register_all ag vs))) \<and>
     (\<forall>u. lookup_one_user_idx ag (Scalar u) = Inl TypeError \<and>
          update_user_dict ag (Scalar u) = Inl TypeError) \<and>
     lookup_one_user_idx ag (Vector []) = Inl IndexError \<and>
     update_user_dict ag (Vector []) = Inl IndexError"
proof -
  define ag where "ag = register_all ag0 us"
  from new_agent_registry[OF assms] have "ran (user_dict ag0) = {0..<current_user_size ag0}"
    by simp
  then have r: "ran (user_dict ag) = {0..<current_user_size ag}"
    unfolding ag_def by (rule register_all_ran)
  have 1: "\<forall>u rest. user_dict ag u = None \<longrightarrow>
          lookup_one_user_idx ag (Vector (u # rest)) = Inr 0"
    by (simp add: lookup_one_user_idx_def)
  have 2: "\<forall>u rest i vs. user_dict ag u = Some i \<longrightarrow>
          lookup_one_user_idx ag (Vector (u # rest)) = Inr i \<and>
          lookup_one_user_idx (register_all ag vs) (Vector (u # rest)) = Inr i"
    by (simp add: lookup_one_user_idx_def register_all_keeps)
  have 3: "\<forall>u i uid ag'. user_dict ag u = Some i \<and> update_user_dict ag uid = Inr ag' \<longrightarrow>
          user_dict ag' u = Some i"
    using update_user_dict_keeps by blast
  have 4: "\<forall>u rest. user_dict ag u = None \<longrightarrow>
          (\<exists>ag'. update_user_dict ag (Vector (u # rest)) = Inr ag' \<and>
                 user_dict ag' u = Some (current_user_size ag) \<and>
                 current_user_size ag' = current_user_size ag + 1)"
    by (simp add: update_user_dict_def)
  have 5: "\<forall>vs. dom (user_dict ag) \<subseteq> dom (user_dict (register_all ag vs))"
    using register_all_keeps by (auto simp: dom_def)
  have 6: "\<forall>u. lookup_one_user_idx ag (Scalar u) = Inl TypeError \<and>
          update_user_dict ag (Scalar u) = Inl TypeError"
    "lookup_one_user_idx ag (Vector []) = Inl IndexError"
    "update_user_dict ag (Vector []) = Inl IndexError"
    by (simp_all add: lookup_one_user_idx_def update_user_dict_def)
  from 1 2 3 4 5 6 r show ?thesis
    unfolding ag_def[symmetric] Let_def by blast
qed

text \<open>The claim as stated fails: the id 7 was never registered, and looking it up as the
  0-d tensor of the plain integer raises TypeError.\<close>

theorem registry_monotone_counterexample:
  "user_dict demo_agent 7 = None \<and>
   lookup_one_user_idx demo_agent (Scalar 7) = Inl TypeError"
  by (simp add: demo_agent_registry lookup_one_user_idx_def)

lemma demo_registered:
  "user_dict (register_all demo_agent [Vector [7], Vector [9]]) = [0 \<mapsto> 0, 7 \<mapsto> 1, 9 \<mapsto> 2]"
  by (simp add: update_user_dict_def demo_agent_registry numeral_2_eq_2)

theorem registry_monotone_witness:
  "new_agent demo_args = Inr demo_agent \<and>
   user_dict (register_all demo_agent [Vector [7], Vector [9]]) 5 = None \<and>
   lookup_one_user_idx (register_all demo_agent [Vector [7], Vector [9]]) (Vector [5]) = Inr 0 \<and>
   user_dict (register_all demo_agent [Vector [7], Vector [9]]) 7 = Some 1 \<and>
   lookup_one_user_idx
     (register_all (register_all demo_agent [Vector [7], Vector [9]]) [Vector [5], Vector [7]])
     (Vector [7]) = Inr 1 \<and>
   ran (user_dict (register_all demo_agent [Vector [7], Vector [9]]))
     = {0..<current_user_size (register_all demo_agent [Vector [7], Vector [9]])}"
proof -
  have n: "user_dict (register_all demo_agent [Vector [7], Vector [9]]) 5 = None"
    and s: "user_dict (register_all demo_agent [Vector [7], Vector [9]]) 7 = Some 1"
    unfolding demo_registered by simp_all
  from registry_monotone[OF demo_agent_new, of "[Vector [7], Vector [9]]"] n s
  show ?thesis
    unfolding Let_def using demo_agent_new by blast
qed

text \<open>
  C10 (user id 0): in every registry reached from the constructor's by a sequence of
  registrations, the raw id 0 is looked up at the dummy index 0, the index every
  unregistered id is looked up at; registering id 0 changes nothing, so that no number of
  events recorded for id 0 gives it an index of its own.
\<close>

theorem user_zero_is_dummy:
  assumes "new_agent args = Inr ag0"
  shows "let ag = register_all ag0 us in
     lookup_one_user_idx ag (Vector (0 # rest)) = Inr 0 \<and>
     update_user_dict ag (Vector (0 # rest)) = Inr ag \<and>
     register_all ag (replicate n (Vector (0 # rest))) = ag \<and>
     (\<forall>u rest'. user_dict ag u = None \<longrightarrow>
        lookup_one_user_idx ag (Vector (u # rest')) = lookup_one_user_idx ag (Vector (0 # rest)))"
proof -
  define ag where "ag = register_all ag0 us"
  from new_agent_registry[OF assms] have "user_dict ag0 0 = Some 0" by simp
  then have z: "user_dict ag 0 = Some 0"
    unfolding ag_def by (rule register_all_keeps)
  then have u: "update_user_dict ag (Vector (0 # rest)) = Inr ag"
    by (simp add: update_user_dict_def)
  have r: "register_all ag (replicate n (Vector (0 # rest))) = ag"
    by (induction n) (simp_all add: u)
  from z u r show ?thesis
    unfolding ag_def[symmetric] Let_def by (simp add: lookup_one_user_idx_def)
qed

theorem user_zero_is_dummy_witness:
  "new_agent demo_args = Inr demo_agent \<and>
   user_dict (register_all demo_agent [Vector [7], Vector [9]]) 5 = None \<and>
   lookup_one_user_idx (register_all demo_agent [Vector [7], Vector [9]]) (Vector [0]) = Inr 0 \<and>
   lookup_one_user_idx (register_all demo_agent [Vector [7], Vector [9]]) (Vector [5])
     = lookup_one_user_idx (register_all demo_agent [Vector [7], Vector [9]]) (Vector [0]) \<and>
   register_all (register_all demo_agent [Vector [7], Vector [9]]) (replicate 3 (Vector [0]))
     = register_all demo_agent [Vector [7], Vector [9]]"
proof -
  have n: "user_dict (register_all demo_agent [Vector [7], Vector [9]]) 5 = None"
    unfolding demo_registered by simp
  from user_zero_is_dummy[OF demo_agent_new, of "[Vector [7], Vector [9]]" "[]" 3] n
  show ?thesis
    unfolding Let_def using demo_agent_new by blast
qed

section \<open>Properties of the buffer\<close>

lemma rows_of_simps [simp]: "rows_of None = []" "rows_of (Some m) = m"
  by (simp_all add: rows_of_def)

lemma list_all_drop: "list_all P xs \<Longrightarrow> list_all P (drop n xs)"
  by (auto simp: list_all_iff dest: in_set_dropD)

lemma py_index_in_range: "0 \<le> k \<Longrightarrow> k < int n \<Longrightarrow> py_index n k = Some (nat k)"
  by (simp add: py_index_def)

lemma cat_row_ok:
  "list_all (\<lambda>r. length r = length row) (rows_of m) \<Longrightarrow> cat_row m row = Inr (rows_of m @ [row])"
  by (cases m) (simp_all add: cat_row_def)

lemma reward_row_ok:
  "0 \<le> k \<Longrightarrow> k < int na \<Longrightarrow> reward_row na k r = Inr ((replicate na 0)[nat k := r])"
  by (simp add: reward_row_def py_index_in_range)

lemma add_ok:
  assumes "ds_inv ds" "length c = ds_context_dim ds" "0 \<le> k" "k < int (ds_num_actions ds)"
  shows "add ds u c k r = (None, added ds u c k r)"
  using assms
  by (auto simp: add_def added_def Let_def cat_row_ok reward_row_ok ds_inv_def ds_width_def)

lemma added_inv:
  assumes "ds_inv ds" "length c = ds_context_dim ds" "0 \<le> k" "k < int (ds_num_actions ds)"
  shows "ds_inv (added ds u c k r)"
proof -
  have "py_index (ds_num_actions ds) k \<noteq> None"
    using assms by (simp add: py_index_in_range)
  with assms(1,2) show ?thesis
    by (auto simp: added_def Let_def ds_inv_def ds_width_def intro: list_all_drop)
qed

lemma added_config:
  "ds_context_dim (added ds u c k r) = ds_context_dim ds"
  "ds_num_actions (added ds u c k r) = ds_num_actions ds"
  "memory_size (added ds u c k r) = memory_size ds"
  "intercept (added ds u c k r) = intercept ds"
  by (simp_all add: added_def Let_def)

lemma new_dataset_inv: "ds_inv (new_dataset cd na ms ic)"
  by (simp add: ds_inv_def new_dataset_def)

lemma add_all_ok:
  assumes "ds_inv ds" and "list_all (good_call (ds_context_dim ds) (ds_num_actions ds)) calls"
  shows "fst (add_all ds calls) = None \<and> ds_inv (snd (add_all ds calls)) \<and>
         ds_context_dim (snd (add_all ds calls)) = ds_context_dim ds \<and>
         ds_num_actions (snd (add_all ds calls)) = ds_num_actions ds \<and>
         memory_size (snd (add_all ds calls)) = memory_size ds \<and>
         intercept (snd (add_all ds calls)) = intercept ds"
  using assms
proof (induction calls arbitrary: ds)
  case Nil
  then show ?case by simp
next
  case (Cons call calls)
  obtain u c k r where call: "call = (u, c, k, r)" by (cases call) auto
  from Cons.prems call have g: "length c = ds_context_dim ds" "0 \<le> k" "k < int (ds_num_actions ds)"
    by (simp_all add: good_call_def)
  have a: "add ds u c k r = (None, added ds u c k r)"
    using add_ok[OF Cons.prems(1) g] .
  have i: "ds_inv (added ds u c k r)"
    using added_inv[OF Cons.prems(1) g] .
  have rest: "list_all (good_call (ds_context_dim (added ds u c k r))
                 (ds_num_actions (added ds u c k r))) calls"
    using Cons.prems(2) by (simp add: added_config)
  from Cons.IH[OF i rest] show ?case
    by (simp add: call a added_config)
qed

lemma add_all_snoc:
  "fst (add_all ds calls) = None \<Longrightarrow>
   add_all ds (calls @ [(u, c, k, r)]) = add (snd (add_all ds calls)) u c k r"
proof (induction calls arbitrary: ds)
  case Nil
  then show ?case by (cases "add ds u c k r") (auto split: option.splits)
next
  case (Cons call calls)
  obtain u' c' k' r' where call: "call = (u', c', k', r')" by (cases call) auto
  show ?case
  proof (cases "add ds u' c' k' r'")
    case (Pair e ds')
    with Cons.prems call have "e = None" by (cases e) auto
    with Pair Cons call show ?thesis by simp
  qed
qed

lemma count_nonzero_one_hot:
  assumes "j < n"
  shows "count_nonzero ((replicate n 0)[j := r]) = (if r = 0 then 0 else 1)"
proof -
  have "(replicate n (0::real))[j := r] = replicate j 0 @ r # replicate (n - Suc j) 0"
    using assms by (simp add: upd_conv_take_nth_drop)
  then show ?thesis by (simp add: count_nonzero_def)
qed

text \<open>
  C4 (buffer invariant), as the code has it: for every sequence of \<open>add\<close> calls on a new
  buffer, each with a context of \<open>context_dim\<close> entries and an action in
  \<open>[0, num_actions)\<close>, no call raises, and after every call the four stores have equal
  length. The reward row a call appends has one entry per action, the reward in the
  action's column and 0 in every other column: one non-zero entry when the reward is not 0,
  none when it is 0. The rewards after the call are the rewards before with this row
  appended, less the oldest row when a finite \<open>memory_size\<close> is exceeded.
\<close>

theorem add_buffer_invariant:
  assumes "list_all (good_call cd na) (calls @ [(u, c, k, r)])"
  shows "let ds = snd (add_all (new_dataset cd na ms ic) calls);
             ds' = snd (add_all (new_dataset cd na ms ic) (calls @ [(u, c, k, r)]));
             row = (replicate na 0)[nat k := r]
         in fst (add_all (new_dataset cd na ms ic) (calls @ [(u, c, k, r)])) = None \<and>
            add ds u c k r = (None, ds') \<and>
            length (user_ids ds') = length (rows_of (contexts ds')) \<and>
            length (rows_of (contexts ds')) = length (actions ds') \<and>
            length (actions ds') = length (rows_of (rewards ds')) \<and>
            reward_row na k r = Inr row \<and>
            length row = na \<and> row ! nat k = r \<and>
            (\<forall>j < na. j \<noteq> nat k \<longrightarrow> row ! j = 0) \<and>
            count_nonzero row = (if r = 0 then 0 else 1) \<and>
            rows_of (rewards ds')
              = drop (if ms \<noteq> - 1 \<and> int (length (actions ds)) + 1 > ms then 1 else 0)
                  (rows_of (rewards ds) @ [row])"
proof -
  define ds0 :: "'a dataset" where "ds0 = new_dataset cd na ms ic"
  define ds where "ds = snd (add_all ds0 calls)"
  define ds' where "ds' = snd (add_all ds0 (calls @ [(u, c, k, r)]))"
  define row where "row = (replicate na (0::real))[nat k := r]"
  have cfg0: "ds_context_dim ds0 = cd" "ds_num_actions ds0 = na" "memory_size ds0 = ms"
    by (simp_all add: ds0_def new_dataset_def)
  have inv0: "ds_inv ds0" unfolding ds0_def by (rule new_dataset_inv)
  from assms have g: "list_all (good_call (ds_context_dim ds0) (ds_num_actions ds0)) calls"
    and gk: "length c = cd" "0 \<le> k" "k < int na"
    by (simp_all add: cfg0 good_call_def)
  from add_all_ok[OF inv0 g]
  have ok: "fst (add_all ds0 calls) = None" and inv: "ds_inv ds"
    and cfg: "ds_context_dim ds = cd" "ds_num_actions ds = na" "memory_size ds = ms"
    by (simp_all add: ds_def cfg0)
  have a: "add ds u c k r = (None, added ds u c k r)"
    using add_ok[OF inv] gk cfg by simp
  have snoc: "add_all ds0 (calls @ [(u, c, k, r)]) = add ds u c k r"
    unfolding ds_def by (rule add_all_snoc[OF ok])
  have ds'_eq: "ds' = added ds u c k r"
    by (simp add: ds'_def snoc a)
  have inv': "ds_inv ds'"
    unfolding ds'_eq using added_inv[OF inv] gk cfg by simp
  have j: "nat k < na" using gk by simp
  have rows: "rows_of (rewards ds')
      = drop (if ms \<noteq> - 1 \<and> int (length (actions ds)) + 1 > ms then 1 else 0)
          (rows_of (rewards ds) @ [row])"
    using inv by (simp add: ds'_eq added_def Let_def cfg row_def ds_inv_def)
  have "fst (add_all ds0 (calls @ [(u, c, k, r)])) = None"
    by (simp add: snoc a)
  moreover have "add ds u c k r = (None, ds')"
    by (simp add: a ds'_eq)
  moreover have "length (user_ids ds') = length (rows_of (contexts ds'))"
    "length (rows_of (contexts ds')) = length (actions ds')"
    "length (actions ds') = length (rows_of (rewards ds'))"
    using inv' by (simp_all add: ds_inv_def)
  moreover have "reward_row na k r = Inr row"
    unfolding row_def using gk by (simp add: reward_row_ok)
  moreover have "length row = na" "row ! nat k = r" "\<forall>j < na. j \<noteq> nat k \<longrightarrow> row ! j = 0"
    using j by (simp_all add: row_def)
  moreover have "count_nonzero row = (if r = 0 then 0 else 1)"
    unfolding row_def using j by (rule count_nonzero_one_hot)
  ultimately show ?thesis
    using rows unfolding Let_def ds_def[symmetric] ds'_def[symmetric] row_def[symmetric]
      ds0_def[symmetric] by blast
qed

theorem add_buffer_invariant_witness:
  "list_all (good_call 1 2) ([(7::int, [1], 0, 5)] @ [(8, [2], 1, 3)]) \<and>
   fst (add_all (new_dataset 1 2 1 False) ([(7::int, [1], 0, 5)] @ [(8, [2], 1, 3)])) = None \<and>
   reward_row 2 1 3 = Inr [0, 3] \<and>
   count_nonzero ([0, 0][nat 1 := 3]) = 1 \<and>
   rows_of (rewards (snd (add_all (new_dataset 1 2 1 False)
                            ([(7::int, [1], 0, 5)] @ [(8, [2], 1, 3)])))) = [[0, 3]]"
proof -
  have g: "list_all (good_call 1 2) ([(7::int, [1], 0, 5)] @ [(8, [2], 1, 3)])"
    by (simp add: good_call_def)
  have e: "rows_of (rewards (snd (add_all (new_dataset 1 2 1 False) [(7::int, [1], 0, 5)])))
             = [[5, 0]]"
    "actions (snd (add_all (new_dataset 1 2 1 False) [(7::int, [1], 0, 5)])) = [0]"
    by (simp_all add: add_def new_dataset_def cat_row_def reward_row_def py_index_def Let_def
        numeral_2_eq_2)
  from add_buffer_invariant[OF g, of 1 False] g e show ?thesis
    by (simp add: Let_def numeral_2_eq_2)
qed

text \<open>The claim as stated fails: a reward of 0 leaves a reward row with no non-zero entry,
  and a call with an action out of range raises after the context has been stored,
  leaving the contexts one row longer than the actions.\<close>

theorem add_buffer_invariant_counterexample:
  "add (new_dataset 1 2 (- 1) False) (7::int) [1] 0 0
     = (None, (new_dataset 1 2 (- 1) False)
                \<lparr>contexts := Some [[1]], rewards := Some [[0, 0]],
                 actions := [0], user_ids := [7]\<rparr>) \<and>
   count_nonzero [0, 0] = 0 \<and>
   fst (add (new_dataset 1 2 (- 1) False) (7::int) [1] 2 5) = Some IndexError \<and>
   length (rows_of (contexts (snd (add (new_dataset 1 2 (- 1) False) (7::int) [1] 2 5)))) = 1 \<and>
   length (actions (snd (add (new_dataset 1 2 (- 1) False) (7::int) [1] 2 5))) = 0"
  by (simp add: add_def new_dataset_def cat_row_def reward_row_def py_index_def Let_def
      count_nonzero_def numeral_2_eq_2)

text \<open>
  C9 (\<open>get_data_with_weights\<close>): the method returns for no buffer at all, and for a
  buffer that holds at least one event, with no more actions than context rows and every
  action a valid column index, it raises NameError.
\<close>

theorem get_data_with_weights_raises:
  "(\<forall>res. get_data_with_weights ds \<noteq> Inr res) \<and>
   (\<forall>cs. contexts ds = Some cs \<and> actions ds \<noteq> [] \<and> length (actions ds) \<le> length cs \<and>
         list_all (\<lambda>k. py_index (ds_num_actions ds) k \<noteq> None) (actions ds) \<longrightarrow>
         get_data_with_weights ds = Inl NameError)"
  by (auto simp: get_data_with_weights_def one_hot_weights_def split: option.splits sum.splits)

theorem get_data_with_weights_raises_witness:
  "contexts (snd (add (new_dataset 1 2 (- 1) False) (7::int) [1] 0 5)) = Some [[1]] \<and>
   actions (snd (add (new_dataset 1 2 (- 1) False) (7::int) [1] 0 5)) \<noteq> [] \<and>
   length (actions (snd (add (new_dataset 1 2 (- 1) False) (7::int) [1] 0 5))) \<le> length [[1::real]] \<and>
   list_all (\<lambda>k. py_index (ds_num_actions (snd (add (new_dataset 1 2 (- 1) False) (7::int) [1] 0 5))) k \<noteq> None)
     (actions (snd (add (new_dataset 1 2 (- 1) False) (7::int) [1] 0 5))) \<and>
   get_data_with_weights (snd (add (new_dataset 1 2 (- 1) False) (7::int) [1] 0 5)) = Inl NameError"
proof -
  have e: "add (new_dataset 1 2 (- 1) False) (7::int) [1] 0 5
     = (None, (new_dataset 1 2 (- 1) False)
                \<lparr>contexts := Some [[1]], rewards := Some [[5, 0]],
                 actions := [0], user_ids := [7]\<rparr>)"
    by (simp add: add_def new_dataset_def cat_row_def reward_row_def py_index_def Let_def
        numeral_2_eq_2)
  have h: "contexts (snd (add (new_dataset 1 2 (- 1) False) (7::int) [1] 0 5)) = Some [[1]]"
    "actions (snd (add (new_dataset 1 2 (- 1) False) (7::int) [1] 0 5)) \<noteq> []"
    "length (actions (snd (add (new_dataset 1 2 (- 1) False) (7::int) [1] 0 5))) \<le> length [[1::real]]"
    "list_all (\<lambda>k. py_index (ds_num_actions (snd (add (new_dataset 1 2 (- 1) False) (7::int) [1] 0 5))) k \<noteq> None)
     (actions (snd (add (new_dataset 1 2 (- 1) False) (7::int) [1] 0 5)))"
    unfolding e by (simp_all add: new_dataset_def py_index_def)
  from get_data_with_weights_raises[of "snd (add (new_dataset 1 2 (- 1) False) (7::int) [1] 0 5)"] h
  show ?thesis by blast
qed

lemma recent_count_min:
  "0 < n_recent \<Longrightarrow> recent_count bsz n n_recent = min (nat n_recent) (min bsz n)"
  by (auto simp: recent_count_def Let_def min_def)

lemma map_nth_recent:
  "k \<le> length xs \<Longrightarrow> map (\<lambda>i. xs ! i) [length xs - k..<length xs] = drop (length xs - k) xs"
  by (rule nth_equalityI) simp_all

lemma take_ind_ok:
  "list_all (\<lambda>i. i < length xs) ind \<Longrightarrow> take_ind xs ind = Inr (map (\<lambda>i. xs ! i) ind)"
  by (simp add: take_ind_def)

lemma batch_ind_recent:
  assumes "0 < n_recent" "batch_lo ds n < n"
  shows "batch_ind choice ds n bsz n_recent
           = Inr ([n - min (nat n_recent) (min bsz n)..<n]
                   @ drop (min (nat n_recent) (min bsz n)) (choice (batch_lo ds n) n bsz))"
  using assms by (simp add: batch_ind_def Let_def recent_count_min)

lemma one_hot_weights_ok:
  assumes "acts \<noteq> []" "length acts \<le> n" "list_all (\<lambda>v. py_index k v \<noteq> None) acts"
  shows "\<exists>w. one_hot_weights n k acts = Inr w"
  using assms by (simp add: one_hot_weights_def)

text \<open>
  C8 (recency-biased batch): on a buffer that satisfies the invariant and holds \<open>n > 0\<close>
  rows, for \<open>n_recent > 0\<close> and every outcome of the random draw (an array of
  \<open>batch_size\<close> indices below \<open>n\<close>, drawn from a non-empty range), the indices of the
  batch are the indices \<open>n - k, ..., n - 1\<close> of the \<open>k = min(n_recent, batch_size, n)\<close> most
  recent rows followed by the draw's entries from position \<open>k\<close> on; and when
  \<open>batch_size > 0\<close> the call returns the user ids, contexts and rewards of the rows at these
  indices, so that the first \<open>k\<close> returned rows are the last \<open>k\<close> rows of the buffer.
\<close>

theorem recent_batch:
  assumes inv: "ds_inv ds" and cs: "contexts ds = Some cs" "cs \<noteq> []"
    and rec: "0 < n_recent"
    and lo: "batch_lo ds (length cs) < length cs"
    and len: "length (choice (batch_lo ds (length cs)) (length cs) bsz) = bsz"
    and rng: "list_all (\<lambda>i. i < length cs) (choice (batch_lo ds (length cs)) (length cs) bsz)"
    and sc: "scaled \<longrightarrow> (\<exists>m. scaled_contexts ds = Some m \<and> length m = length cs)"
  shows "let n = length cs;
             k = min (nat n_recent) (min bsz n);
             draw = choice (batch_lo ds n) n bsz;
             ind = [n - k..<n] @ drop k draw;
             m = rows_of (if scaled then scaled_contexts ds else contexts ds)
         in batch_ind choice ds n bsz n_recent = Inr ind \<and>
            length ind = bsz \<and> take k ind = [n - k..<n] \<and> drop k ind = drop k draw \<and>
            (0 < bsz \<longrightarrow>
              (\<exists>w. get_batch_with_weights_recent choice ds bsz n_recent scaled
                     = Inr (map (\<lambda>i. user_ids ds ! i) ind, map (\<lambda>i. m ! i) ind,
                            map (\<lambda>i. rows_of (rewards ds) ! i) ind, w) \<and>
                   take k (map (\<lambda>i. user_ids ds ! i) ind) = drop (n - k) (user_ids ds) \<and>
                   take k (map (\<lambda>i. m ! i) ind) = drop (n - k) m \<and>
                   take k (map (\<lambda>i. rows_of (rewards ds) ! i) ind)
                     = drop (n - k) (rows_of (rewards ds))))"
proof -
  define n where "n = length cs"
  define k where "k = min (nat n_recent) (min bsz n)"
  define draw where "draw = choice (batch_lo ds n) n bsz"
  define ind where "ind = [n - k..<n] @ drop k draw"
  define m where "m = rows_of (if scaled then scaled_contexts ds else contexts ds)"
  have kn: "k \<le> n" "k \<le> bsz" by (simp_all add: k_def)
  have dl: "length draw = bsz" using len by (simp add: draw_def n_def)
  have dr: "list_all (\<lambda>i. i < n) draw" using rng by (simp add: draw_def n_def)
  have bi: "batch_ind choice ds n bsz n_recent = Inr ind"
    using batch_ind_recent[OF rec, of ds n choice bsz] lo
    by (simp add: ind_def k_def draw_def n_def)
  have li: "length ind = bsz" using kn dl by (simp add: ind_def)
  have tk: "take k ind = [n - k..<n]" using kn by (simp add: ind_def)
  have dk: "drop k ind = drop k draw" using kn by (simp add: ind_def)
  have ir: "list_all (\<lambda>i. i < n) ind"
    using dr by (auto simp: ind_def list_all_iff dest: in_set_dropD)
  have lens: "length (user_ids ds) = n" "length (actions ds) = n" "length (rows_of (rewards ds)) = n"
    using inv cs by (simp_all add: ds_inv_def n_def)
  have lm: "length m = n" using sc cs by (auto simp: m_def n_def)
  have mm: "(if scaled then scaled_contexts ds else Some cs) = Some m"
    using sc cs by (auto simp: m_def)
  obtain rs where rs: "rewards ds = Some rs" "length rs = n"
    using lens(3) cs(2) by (cases "rewards ds") (auto simp: n_def)
  have recent: "\<And>xs::'b list. length xs = n \<Longrightarrow> take k (map (\<lambda>i. xs ! i) ind) = drop (n - k) xs"
  proof -
    fix xs :: "'b list" assume l: "length xs = n"
    have "take k (map (\<lambda>i. xs ! i) ind) = map (\<lambda>i. xs ! i) (take k ind)" by (simp add: take_map)
    also have "\<dots> = map (\<lambda>i. xs ! i) [length xs - k..<length xs]" by (simp add: tk l)
    also have "\<dots> = drop (length xs - k) xs" using kn l by (intro map_nth_recent) simp
    finally show "take k (map (\<lambda>i. xs ! i) ind) = drop (n - k) xs" by (simp add: l)
  qed
  have get: "0 < bsz \<longrightarrow>
      (\<exists>w. get_batch_with_weights_recent choice ds bsz n_recent scaled
             = Inr (map (\<lambda>i. user_ids ds ! i) ind, map (\<lambda>i. m ! i) ind,
                    map (\<lambda>i. rows_of (rewards ds) ! i) ind, w))"
  proof
    assume b: "0 < bsz"
    have sa: "take_ind (actions ds) ind = Inr (map (\<lambda>i. actions ds ! i) ind)"
      using ir lens by (simp add: take_ind_ok)
    have va: "list_all (\<lambda>v. py_index (ds_num_actions ds) v \<noteq> None) (map (\<lambda>i. actions ds ! i) ind)"
      using inv ir lens(2) by (auto simp: ds_inv_def list_all_iff)
    have "map (\<lambda>i. actions ds ! i) ind \<noteq> []" using li b by auto
    from one_hot_weights_ok[OF this _ va, of bsz] li
    obtain w where w: "one_hot_weights bsz (ds_num_actions ds) (map (\<lambda>i. actions ds ! i) ind) = Inr w"
      by auto
    have "get_batch_with_weights_recent choice ds bsz n_recent scaled
             = Inr (map (\<lambda>i. user_ids ds ! i) ind, map (\<lambda>i. m ! i) ind,
                    map (\<lambda>i. rows_of (rewards ds) ! i) ind, w)"
      using cs(1) bi sa w mm ir lens lm rs
      by (simp add: get_batch_with_weights_recent_def n_def[symmetric] take_ind_ok)
    then show "\<exists>w. get_batch_with_weights_recent choice ds bsz n_recent scaled
             = Inr (map (\<lambda>i. user_ids ds ! i) ind, map (\<lambda>i. m ! i) ind,
                    map (\<lambda>i. rows_of (rewards ds) ! i) ind, w)" ..
  qed
  from bi li tk dk get recent[OF lens(1)] recent[OF lm] recent[OF lens(3)]
  show ?thesis
    unfolding Let_def n_def[symmetric] k_def[symmetric] draw_def[symmetric] ind_def[symmetric]
      m_def[symmetric]
    by blast
qed


theorem recent_batch_witness:
  "ds_inv demo_buffer \<and> contexts demo_buffer = Some [[1], [2], [3]] \<and> (0::int) < 2 \<and>
   batch_lo demo_buffer 3 < 3 \<and>
   batch_ind (\<lambda>lo n s. replicate s lo) demo_buffer 3 3 2 = Inr [1, 2, 0] \<and>
   (\<exists>w. get_batch_with_weights_recent (\<lambda>lo n s. replicate s lo) demo_buffer 3 2 False
          = Inr ([8, 9, 7], [[2], [3], [1]], [[0, 3], [4, 0], [5, 0]], w))"
proof -
  have inv: "ds_inv demo_buffer"
    by (simp add: ds_inv_def demo_buffer_def new_dataset_def ds_width_def py_index_def)
  have cs: "contexts demo_buffer = Some [[1], [2], [3]]" "[[1], [2], [3::real]] \<noteq> []"
    by (simp_all add: demo_buffer_def)
  have lo: "batch_lo demo_buffer (length [[1], [2], [3::real]]) < length [[1], [2], [3::real]]"
    by (simp add: batch_lo_def demo_buffer_def new_dataset_def)
  have lo0: "batch_lo demo_buffer 3 = 0"
    by (simp add: batch_lo_def demo_buffer_def new_dataset_def)
  have len: "length ((\<lambda>lo n s. replicate s lo) (batch_lo demo_buffer (length [[1], [2], [3::real]]))
               (length [[1], [2], [3::real]]) 3) = 3"
    by simp
  have rng: "list_all (\<lambda>i. i < length [[1], [2], [3::real]])
               ((\<lambda>lo n s. replicate s lo) (batch_lo demo_buffer (length [[1], [2], [3::real]]))
                  (length [[1], [2], [3::real]]) 3)"
    using lo by (auto simp: list_all_iff)
  have sc: "False \<longrightarrow> (\<exists>m. scaled_contexts demo_buffer = Some m \<and> length m = length [[1], [2], [3::real]])"
    by simp
  have u: "[3 - 2..<3] @ drop 2 (replicate 3 (0::nat)) = [1, 2, 0]"
    by (simp add: upt_rec numeral_3_eq_3)
  have p: "(0::int) < 2" "(0::nat) < 3" by simp_all
  have l3: "length [[1], [2], [3::real]] = 3" by simp
  have k2: "min (nat 2) (min 3 (3::nat)) = 2" by simp
  have m1: "map (\<lambda>i. user_ids demo_buffer ! i) [1, 2, 0] = [8, 9, 7]"
    "map (\<lambda>i. rows_of (if False then scaled_contexts demo_buffer else contexts demo_buffer) ! i)
       [1, 2, 0] = [[2], [3], [1]]"
    "map (\<lambda>i. rows_of (rewards demo_buffer) ! i) [1, 2, 0] = [[0, 3], [4, 0], [5, 0]]"
    by (simp_all add: demo_buffer_def)
  note t = recent_batch[OF inv cs, of 2 "\<lambda>lo n s. replicate s lo" 3 False, OF _ lo len rng sc,
      unfolded Let_def l3 lo0 k2 u m1]
  have t': "batch_ind (\<lambda>lo n s. replicate s lo) demo_buffer 3 3 2 = Inr [1, 2, 0]"
    "\<exists>w. get_batch_with_weights_recent (\<lambda>lo n s. replicate s lo) demo_buffer 3 2 False
          = Inr ([8, 9, 7], [[2], [3], [1]], [[0, 3], [4, 0], [5, 0]], w)"
    using t[OF p(1)] p(2) by blast+
  with inv cs lo0 show ?thesis by simp
qed

text \<open>
  C5 (bulk ingestion beyond capacity): on a buffer with \<open>memory_size = 1\<close> that holds no
  rows yet, ingesting two rows raises, but not the capacity error: NameError in the module
  as it is, where \<^verbatim>\<open>pd\<close> is unbound, and TypeError from \<^verbatim>\<open>len(None)\<close> where \<^verbatim>\<open>pd\<close> is bound.
  The buffer is left as it was.
\<close>

theorem ingest_data_fresh_over_capacity:
  "ingest_data False (new_dataset 1 1 1 False) [7, 8::int] [1, 2] [0, 0] [1, 1]
     = (Some NameError, new_dataset 1 1 1 False) \<and>
   ingest_data True (new_dataset 1 1 1 False) [7, 8::int] [1, 2] [0, 0] [1, 1]
     = (Some TypeError, new_dataset 1 1 1 False)"
  by (simp add: ingest_data_def new_dataset_def)

theorem ingest_data_fresh_over_capacity_witness:
  "fst (ingest_data True (new_dataset 1 1 1 False) [7, 8::int] [1, 2] [0, 0] [1, 1])
     \<noteq> Some (Exception ''Too many examples for specified memory_size.'') \<and>
   snd (ingest_data True (new_dataset 1 1 1 False) [7, 8::int] [1, 2] [0, 0] [1, 1])
     = new_dataset 1 1 1 False"
  using ingest_data_fresh_over_capacity by simp

text \<open>Where \<^verbatim>\<open>pd\<close> is bound and the buffer holds rewards already, an ingestion beyond a
  finite capacity raises the capacity error and leaves the buffer as it was.\<close>

lemma ingest_data_over_capacity:
  assumes "memory_size ds \<noteq> - 1" and "rewards ds = Some rs"
    and "int (length new_rewards) + int (length rs) > memory_size ds"
  shows "ingest_data True ds new_ids new_contexts new_actions new_rewards
           = (Some (Exception ''Too many examples for specified memory_size.''), ds)"
  using assms by (simp add: ingest_data_def)

section \<open>Properties of the learning rates\<close>

lemma demo_agent_lr:
  "param_dict demo_agent = [0, 1, 2, 3]"
  "initial_param_dict demo_agent = [0, 1, 2, 3]"
  "optim_param_groups demo_agent = [0, 1, 2, 3]"
  "map (lr_of demo_agent) [0, 1, 2, 3] = [1, 1, 1 / 100, 1 / 100]"
  "model_type_of demo_agent = Wide_deep"
  "initial_lr_wide demo_agent = 1" "initial_lr_deep demo_agent = 1"
  "lr_decay_rate_wide demo_agent = 1" "lr_decay_rate_deep demo_agent = 1"
  "reset_lr demo_agent" "num_epochs demo_agent = 2"
  by (simp_all add: demo_agent_def new_agent_def demo_args_def initial_latent_dim_def
      initial_group_lrs_def Let_def upt_rec)

text \<open>
  C7 (learning-rate reset): an agent built with \<open>reset_lr\<close>, base rates 1, decay rates 1
  and two steps per training. After one training the first two groups' rates have decayed
  to \<open>1 / 2\<close>, in the very dicts that \<open>initial_param_dict\<close> lists; the reset at the start of
  \<^verbatim>\<open>_retrain_nn\<close> copies these values, and the optimizer's groups stay at \<open>1 / 2\<close>, not at
  the base rate 1.
\<close>

theorem retrain_reset_keeps_decayed_lr:
  "let ag = demo_agent\<lparr>self_t := 2\<rparr>;
       ag1 = snd (train ag (num_epochs ag));
       ag2 = snd (retrain_nn_reset ag1)
   in fst (train ag (num_epochs ag)) = None \<and> reset_lr ag1 \<and>
      fst (retrain_nn_reset ag1) = None \<and>
      initial_lr_wide ag2 = 1 \<and> initial_lr_deep ag2 = 1 \<and>
      map (lr_of ag2) (optim_param_groups ag2) = [1 / 2, 1 / 2, 1 / 100, 1 / 100]"
  using demo_agent_lr(4)
  by (simp add: Let_def train_def retrain_nn_reset_def assign_lr_def do_step_def set_param_lr_def
      set_lr_def demo_agent_lr(1-3,5-) upt_rec)

theorem retrain_reset_keeps_decayed_lr_witness:
  "map (lr_of (snd (retrain_nn_reset
                      (snd (train (demo_agent\<lparr>self_t := 2\<rparr>)
                              (num_epochs (demo_agent\<lparr>self_t := 2\<rparr>)))))))
     (optim_param_groups (snd (retrain_nn_reset
                      (snd (train (demo_agent\<lparr>self_t := 2\<rparr>)
                              (num_epochs (demo_agent\<lparr>self_t := 2\<rparr>)))))))
     \<noteq> [1, 1, 1 / 100, 1 / 100]"
  using retrain_reset_keeps_decayed_lr unfolding Let_def by simp

section \<open>Properties of Thompson sampling\<close>

lemma sample_loop_all_ok:
  assumes "k \<le> length (mu ag)" "k \<le> length sigma2_s" "k \<le> length (cov ag)"
    and "\<forall>i. j \<le> i \<and> i < k \<longrightarrow> mvn i (mu ag ! i) (np_scale (sigma2_s ! i) (cov ag ! i)) = Inr (w i)"
  shows "sample_loop mvn ag sigma2_s [j..<k] acc = (None, acc @ map w [j..<k])"
  using assms
proof (induction "k - j" arbitrary: j acc)
  case 0
  then show ?case by simp
next
  case (Suc n)
  then have jk: "j < k" by simp
  have "sample_loop mvn ag sigma2_s [Suc j..<k] (acc @ [w j]) = (None, (acc @ [w j]) @ map w [Suc j..<k])"
    using Suc by (intro Suc.hyps(1)) auto
  with jk Suc.prems show ?case
    by (simp add: upt_conv_Cons)
qed

lemma sample_loop_first_failure:
  assumes "k \<le> length (mu ag)" "k \<le> length sigma2_s" "k \<le> length (cov ag)"
    and "j \<le> f" "f < k"
    and "\<forall>i. j \<le> i \<and> i < f \<longrightarrow> mvn i (mu ag ! i) (np_scale (sigma2_s ! i) (cov ag ! i)) = Inr (w i)"
    and "mvn f (mu ag ! f) (np_scale (sigma2_s ! f) (cov ag ! f)) = Inl e"
  shows "sample_loop mvn ag sigma2_s [j..<k] acc = (Some e, acc @ map w [j..<f])"
  using assms
proof (induction "f - j" arbitrary: j acc)
  case 0
  then have "j = f" by simp
  with 0 show ?case by (simp add: upt_conv_Cons)
next
  case (Suc n)
  then have jf: "j < f" by simp
  have "sample_loop mvn ag sigma2_s [Suc j..<k] (acc @ [w j]) = (Some e, (acc @ [w j]) @ map w [Suc j..<f])"
    using Suc by (intro Suc.hyps(1)) auto
  with jf Suc.prems show ?case
    by (simp add: upt_conv_Cons)
qed

lemma fallback_loop_all_ok:
  assumes "\<forall>i. j \<le> i \<and> i < k \<longrightarrow> mvn (n0 + i) (np_zeros d) (np_eye d) = Inr (v i)"
  shows "fallback_loop mvn d n0 [j..<k] acc = Inr (acc @ map v [j..<k])"
  using assms
proof (induction "k - j" arbitrary: j acc)
  case 0
  then show ?case by simp
next
  case (Suc n)
  then have jk: "j < k" by simp
  have "fallback_loop mvn d n0 [Suc j..<k] (acc @ [v j]) = Inr ((acc @ [v j]) @ map v [Suc j..<k])"
    using Suc by (intro Suc.hyps(1)) auto
  with jk Suc.prems show ?case
    by (simp add: upt_conv_Cons)
qed

text \<open>
  C3 (Thompson sampling), as the code has it: the draws are made in action order inside
  one \<^verbatim>\<open>try\<close>. When every draw succeeds, each action's weights are drawn from its own
  posterior mean and its covariance scaled by \<open>b * g\<close>, and the call returns one score per
  action. When the draw for action \<open>j\<close> is the first to fail with \<open>LinAlgError\<close>, the \<^verbatim>\<open>try\<close>
  is left with the draws of the actions before \<open>j\<close>, whatever the draws of the later
  actions would have been: none of them is drawn from its posterior. The handler's loop
  draws standard-normal weights for every action, not for \<open>j\<close> alone.
\<close>

theorem sample_draws:
  assumes na: "num_actions ag = int k" "0 < k"
    and ln: "length (mu ag) = k" "length (cov ag) = k" "length (self_b ag) = k"
    and g: "rvs (self_a ag) = Inr g" "length g = k"
    and z: "lookup_one_user_idx ag user_id = Inr idx" "repr idx ctx = Inr z"
  shows "let sigma2_s = map2 (*) (self_b ag) g;
             draw = (\<lambda>m i. m i (mu ag ! i) (np_scale (sigma2_s ! i) (cov ag ! i)))
         in ((\<forall>i<k. draw mvn i = Inr (w i)) \<longrightarrow>
               sample rvs mvn repr ag user_id ctx = Inr (map (\<lambda>i. np_dot_vv (w i) z) [0..<k])) \<and>
            (\<forall>j<k. (\<forall>i<j. draw mvn i = Inr (w i)) \<and> draw mvn j = Inl LinAlgError \<longrightarrow>
               sample_loop mvn ag sigma2_s [0..<k] [] = (Some LinAlgError, map w [0..<j]) \<and>
               (\<forall>mvn'. (\<forall>i\<le>j. \<forall>m c. mvn' i m c = mvn i m c) \<longrightarrow>
                  sample_loop mvn' ag sigma2_s [0..<k] [] = sample_loop mvn ag sigma2_s [0..<k] [])) \<and>
            (\<forall>d n0 v. (\<forall>i<k. mvn (n0 + i) (np_zeros d) (np_eye d) = Inr (v i)) \<longrightarrow>
               fallback_loop mvn d n0 [0..<k] [] = Inr (map v [0..<k]))"
proof -
  define sigma2_s where "sigma2_s = map2 (*) (self_b ag) g"
  define draw where
    "draw = (\<lambda>(m::mvn_draw) i. m i (mu ag ! i) (np_scale (sigma2_s ! i) (cov ag ! i)))"
  have ls: "k \<le> length (mu ag)" "k \<le> length sigma2_s" "k \<le> length (cov ag)"
    using ln g by (simp_all add: sigma2_s_def)
  obtain mu0 mus where mu: "mu ag = mu0 # mus"
    using ln(1) na(2) by (cases "mu ag") auto
  have A: "(\<forall>i<k. draw mvn i = Inr (w i)) \<longrightarrow>
      sample rvs mvn repr ag user_id ctx = Inr (map (\<lambda>i. np_dot_vv (w i) z) [0..<k])"
  proof
    assume ok: "\<forall>i<k. draw mvn i = Inr (w i)"
    then have "sample_loop mvn ag sigma2_s [0..<k] [] = (None, [] @ map w [0..<k])"
      by (intro sample_loop_all_ok ls) (simp add: draw_def)
    then show "sample rvs mvn repr ag user_id ctx = Inr (map (\<lambda>i. np_dot_vv (w i) z) [0..<k])"
      using g z na
      by (simp add: sample_def mu Let_def sigma2_s_def[symmetric] ts_vals_def
          cong: map_cong)
  qed
  have B: "\<forall>j<k. (\<forall>i<j. draw mvn i = Inr (w i)) \<and> draw mvn j = Inl LinAlgError \<longrightarrow>
      sample_loop mvn ag sigma2_s [0..<k] [] = (Some LinAlgError, map w [0..<j]) \<and>
      (\<forall>mvn'. (\<forall>i\<le>j. \<forall>m c. mvn' i m c = mvn i m c) \<longrightarrow>
         sample_loop mvn' ag sigma2_s [0..<k] [] = sample_loop mvn ag sigma2_s [0..<k] [])"
  proof (intro allI impI)
    fix j assume jk: "j < k"
      and h: "(\<forall>i<j. draw mvn i = Inr (w i)) \<and> draw mvn j = Inl LinAlgError"
    have r: "\<And>m. (\<forall>i\<le>j. \<forall>x c. m i x c = mvn i x c) \<Longrightarrow>
        sample_loop m ag sigma2_s [0..<k] [] = (Some LinAlgError, [] @ map w [0..<j])"
      using h jk by (intro sample_loop_first_failure ls) (auto simp: draw_def)
    from r[of mvn] r
    show "sample_loop mvn ag sigma2_s [0..<k] [] = (Some LinAlgError, map w [0..<j]) \<and>
      (\<forall>mvn'. (\<forall>i\<le>j. \<forall>m c. mvn' i m c = mvn i m c) \<longrightarrow>
         sample_loop mvn' ag sigma2_s [0..<k] [] = sample_loop mvn ag sigma2_s [0..<k] [])"
      by simp
  qed
  have C: "\<forall>d n0 v. (\<forall>i<k. mvn (n0 + i) (np_zeros d) (np_eye d) = Inr (v i)) \<longrightarrow>
      fallback_loop mvn d n0 [0..<k] [] = Inr (map v [0..<k])"
    using fallback_loop_all_ok[of 0 k mvn _ _ _ "[]"] by simp
  from A B C show ?thesis
    unfolding Let_def draw_def sigma2_s_def[symmetric] by blast
qed


lemma trained_agent_posterior:
  "num_actions trained_agent = int 2"
  "mu trained_agent = [[1, 2], [3, 4]]"
  "cov trained_agent = [[[4, 0], [0, 4]], [[4, 0], [0, 4]]]"
  "self_a trained_agent = [6, 6]" "self_b trained_agent = [6, 6]"
  "user_dict trained_agent = [0 \<mapsto> 0]"
  by (simp_all add: trained_agent_def demo_agent_def new_agent_def demo_args_def
      initial_latent_dim_def Let_def np_scale_def np_eye_def upt_rec numeral_2_eq_2)

text \<open>The claim as stated fails: with two actions and a failing draw for action 0, the
  call aborts with AttributeError (the handler reads \<^verbatim>\<open>e.message\<close>), action 1 has not been
  drawn from its posterior, whose mean is \<open>[3, 4]\<close>, and the handler's loop would draw
  standard-normal weights for both actions.\<close>

theorem sample_draws_counterexample:
  "sample demo_rvs (mvn_failing_at 0) demo_repr trained_agent (Vector [7]) [1] = Inl AttributeError \<and>
   sample_loop (mvn_failing_at 0) trained_agent [6, 6] [0..<2] [] = (Some LinAlgError, []) \<and>
   fallback_loop (mvn_failing_at 0) 2 1 [0..<2] [] = Inr [[0, 0], [0, 0]]"
  by (simp add: sample_def trained_agent_posterior demo_rvs_def mvn_failing_at_def Let_def
      exc_message_def upt_rec np_zeros_def numeral_2_eq_2)

theorem sample_draws_witness:
  "num_actions trained_agent = int 2 \<and> demo_rvs (self_a trained_agent) = Inr [1, 1] \<and>
   lookup_one_user_idx trained_agent (Vector [7]) = Inr 0 \<and> demo_repr 0 [1] = Inr [1, 1] \<and>
   sample demo_rvs mvn_mean demo_repr trained_agent (Vector [7]) [1] = Inr [3, 7] \<and>
   sample_loop (mvn_failing_at 1) trained_agent [6, 6] [0..<2] [] = (Some LinAlgError, [[1, 2]]) \<and>
   fallback_loop mvn_mean 2 1 [0..<2] [] = Inr [[0, 0], [0, 0]]"
proof -
  have h: "num_actions trained_agent = int 2" "0 < (2::nat)"
    "length (mu trained_agent) = 2" "length (cov trained_agent) = 2"
    "length (self_b trained_agent) = 2"
    "demo_rvs (self_a trained_agent) = Inr [1, 1]" "length [1, 1::real] = 2"
    "lookup_one_user_idx trained_agent (Vector [7]) = Inr 0" "demo_repr 0 [1] = Inr [1, 1]"
    by (simp_all add: trained_agent_posterior demo_rvs_def lookup_one_user_idx_def demo_repr_def)
  have s: "map2 (*) (self_b trained_agent) [1, 1] = [6, 6]"
    by (simp add: trained_agent_posterior)
  note t = sample_draws[where rvs = demo_rvs and repr = demo_repr and ag = trained_agent
      and k = 2 and g = "[1, 1]" and user_id = "Vector [7]" and idx = 0 and ctx = "[1]"
      and z = "[1, 1]" and w = "\<lambda>i. mu trained_agent ! i", OF h, unfolded Let_def s]
  have w: "(\<lambda>i. mu trained_agent ! i) 0 = [1, 2]" "(\<lambda>i. mu trained_agent ! i) 1 = [3, 4]"
    by (simp_all add: trained_agent_posterior)
  have a: "sample demo_rvs mvn_mean demo_repr trained_agent (Vector [7]) [1] = Inr [3, 7]"
    using t[of mvn_mean] w
    by (simp add: mvn_mean_def np_dot_vv_def upt_rec numeral_2_eq_2)
  have b: "sample_loop (mvn_failing_at 1) trained_agent [6, 6] [0..<2] [] = (Some LinAlgError, [[1, 2]])"
  proof -
    from t[of "mvn_failing_at 1"]
    have "\<forall>j<2. (\<forall>i<j. mvn_failing_at 1 i (mu trained_agent ! i)
                          (np_scale ([6, 6] ! i) (cov trained_agent ! i)) = Inr (mu trained_agent ! i)) \<and>
             mvn_failing_at 1 j (mu trained_agent ! j) (np_scale ([6, 6] ! j) (cov trained_agent ! j))
               = Inl LinAlgError \<longrightarrow>
             sample_loop (mvn_failing_at 1) trained_agent [6, 6] [0..<2] []
               = (Some LinAlgError, map (\<lambda>i. mu trained_agent ! i) [0..<j])"
      by blast
    from this[rule_format, of 1]
    have "sample_loop (mvn_failing_at 1) trained_agent [6, 6] [0..<2] []
               = (Some LinAlgError, map (\<lambda>i. mu trained_agent ! i) [0..<1])"
      by (simp add: mvn_failing_at_def)
    then show ?thesis using w by simp
  qed
  have c: "fallback_loop mvn_mean 2 1 [0..<2] [] = Inr [[0, 0], [0, 0]]"
  proof -
    from t[of mvn_mean]
    have "\<forall>d n0 v. (\<forall>i<2. mvn_mean (n0 + i) (np_zeros d) (np_eye d) = Inr (v i)) \<longrightarrow>
               fallback_loop mvn_mean d n0 [0..<2] [] = Inr (map v [0..<2])"
      by blast
    from this[rule_format, where d = 2 and ?n0.0 = 1 and v = "\<lambda>i. np_zeros 2"]
    have "fallback_loop mvn_mean 2 1 [0..<2] [] = Inr (map (\<lambda>i. np_zeros 2) [0..<2])"
      by (simp add: mvn_mean_def)
    then show ?thesis by (simp add: np_zeros_def upt_rec numeral_2_eq_2)
  qed
  from h a b c show ?thesis by simp
qed

section \<open>Properties of the posterior refresh\<close>

lemma zip_as_map_nth:
  "length xs = length ys \<Longrightarrow> zip xs ys = map (\<lambda>i. (xs ! i, ys ! i)) [0..<length xs]"
  by (rule nth_equalityI) simp_all

lemma select_by_index:
  assumes "length xs = length ys"
  shows "map (\<lambda>i. ys ! i) (filter (\<lambda>i. xs ! i = k) [0..<length xs])
           = map snd (filter (\<lambda>(x, y). x = k) (zip xs ys))"
  by (simp add: zip_as_map_nth[OF assms] filter_map o_def)

lemma select_by_index_f:
  assumes "length xs = length ys"
  shows "map (\<lambda>i. f (ys ! i)) (filter (\<lambda>i. xs ! i = k) [0..<length xs])
           = map (\<lambda>(x, y). f y) (filter (\<lambda>(x, y). x = k) (zip xs ys))"
  by (simp add: zip_as_map_nth[OF assms] filter_map o_def)

lemma get_data_design:
  assumes inv: "ds_inv ds" and k: "0 \<le> k" "k < int (ds_num_actions ds)"
    and mem: "k \<in> set (actions ds)"
  shows "\<exists>us. get_data ds k = Inr (us, design_matrix ds k, targets ds k)"
proof -
  define n where "n = length (actions ds)"
  define ind where "ind = filter (\<lambda>i. actions ds ! i = k) [0..<n]"
  from mem have "0 < n" by (auto simp: n_def)
  with inv obtain cs rs where cs: "contexts ds = Some cs" "length cs = n"
    and rs: "rewards ds = Some rs" "length rs = n"
    and ul: "length (user_ids ds) = n"
    and rw: "list_all (\<lambda>row. length row = ds_num_actions ds) rs"
    by (cases "contexts ds"; cases "rewards ds") (auto simp: ds_inv_def n_def)
  have ir: "list_all (\<lambda>i. i < n) ind"
    by (simp add: ind_def list_all_iff)
  have t: "\<And>xs::'b list. length xs = n \<Longrightarrow> take_ind xs ind = Inr (map (\<lambda>i. xs ! i) ind)"
    using ir by (simp add: take_ind_def)
  have pk: "py_index (ds_num_actions ds) k = Some (nat k)"
    using k by (simp add: py_index_in_range)
  have sel: "list_all (\<lambda>row. length row = ds_num_actions ds) (map (\<lambda>i. rs ! i) ind)"
    using rw rs(2) by (auto simp: list_all_iff ind_def)
  have rr: "list_all (\<lambda>row. py_index (length row) k \<noteq> None) (map (\<lambda>i. rs ! i) ind)"
    using sel pk by (auto simp: list_all_iff)
  have ym: "map (\<lambda>row. row ! the (py_index (length row) k)) (map (\<lambda>i. rs ! i) ind)
              = map (\<lambda>i. rs ! i ! nat k) ind"
    using sel pk by (auto simp: list_all_iff)
  have z: "map (\<lambda>i. cs ! i) ind = design_matrix ds k"
    using select_by_index[of "actions ds" cs k] cs
    by (simp add: design_matrix_def ind_def n_def)
  have y: "map (\<lambda>i. rs ! i ! nat k) ind = targets ds k"
    using select_by_index_f[of "actions ds" rs "\<lambda>row. row ! nat k" k] rs
    by (simp add: targets_def ind_def n_def)
  have "get_data ds k = Inr (map (\<lambda>i. user_ids ds ! i) ind, design_matrix ds k, targets ds k)"
    using cs rs ul rr
    by (simp add: get_data_def Let_def n_def[symmetric] ind_def[symmetric] t ym z y
        del: map_map)
  then show ?thesis by blast
qed


lemma ds_inv_action_range:
  assumes "ds_inv ds" "k \<in> set (actions ds)" "0 \<le> k"
  shows "k < int (ds_num_actions ds)"
proof -
  from assms(1,2) have "py_index (ds_num_actions ds) k \<noteq> None"
    by (auto simp: ds_inv_def list_all_iff)
  with assms(3) show ?thesis
    by (auto simp: py_index_def split: if_splits)
qed

lemma py_store_in_range:
  "0 \<le> k \<Longrightarrow> k < int (length xs) \<Longrightarrow> py_store xs k v = Some (xs[nat k := v])"
  by (simp add: py_store_def py_index_in_range)

lemma update_one_closed_form:
  assumes inv: "ds_inv (latent_h ag)" and k: "0 \<le> k" "k \<in> set (actions (latent_h ag))"
    and len: "length (mu ag) = ds_num_actions (latent_h ag)"
      "length (cov ag) = ds_num_actions (latent_h ag)"
      "length (precision ag) = ds_num_actions (latent_h ag)"
      "length (self_a ag) = ds_num_actions (latent_h ag)"
      "length (self_b ag) = ds_num_actions (latent_h ag)"
    and cf: "closed_form linalg_inv (lambda_prior ag) (a0 ag) (b0 ag) (latent_dim ag)
               (design_matrix (latent_h ag) k) (targets (latent_h ag) k) = Some (m, C, P, A, B)"
  shows "update_one linalg_inv ag k
           = (None, ag\<lparr>mu := (mu ag)[nat k := m], cov := (cov ag)[nat k := C],
                       precision := (precision ag)[nat k := P],
                       self_a := (self_a ag)[nat k := A], self_b := (self_b ag)[nat k := B]\<rparr>)"
proof -
  have kr: "k < int (ds_num_actions (latent_h ag))"
    using ds_inv_action_range[OF inv k(2) k(1)] .
  from get_data_design[OF inv k(1) kr k(2)]
  obtain us where g: "get_data (latent_h ag) k
      = Inr (us, design_matrix (latent_h ag) k, targets (latent_h ag) k)" by blast
  from cf show ?thesis
    using k(1) kr len
    by (auto simp: update_one_def g closed_form_def Let_def py_store_in_range add_diff_eq
        split: option.splits)
qed

lemma update_loop_closed_form:
  assumes inv: "ds_inv lh"
    and frame: "latent_h ag = lh" "lambda_prior ag = lam" "a0 ag = a_0" "b0 ag = b_0"
      "latent_dim ag = d"
    and len: "length (mu ag) = ds_num_actions lh" "length (cov ag) = ds_num_actions lh"
      "length (precision ag) = ds_num_actions lh" "length (self_a ag) = ds_num_actions lh"
      "length (self_b ag) = ds_num_actions lh"
    and ks: "\<forall>k \<in> set ks. 0 \<le> k \<and> k \<in> set (actions lh) \<and>
               closed_form linalg_inv lam a_0 b_0 d (design_matrix lh k) (targets lh k) \<noteq> None"
  shows "fst (update_loop linalg_inv ag ks) = None \<and>
         latent_h (snd (update_loop linalg_inv ag ks)) = lh \<and>
         (\<forall>j < ds_num_actions lh.
            (int j \<in> set ks \<longrightarrow>
               closed_form linalg_inv lam a_0 b_0 d (design_matrix lh (int j)) (targets lh (int j))
                 = Some (mu (snd (update_loop linalg_inv ag ks)) ! j,
                         cov (snd (update_loop linalg_inv ag ks)) ! j,
                         precision (snd (update_loop linalg_inv ag ks)) ! j,
                         self_a (snd (update_loop linalg_inv ag ks)) ! j,
                         self_b (snd (update_loop linalg_inv ag ks)) ! j)) \<and>
            (int j \<notin> set ks \<longrightarrow>
               mu (snd (update_loop linalg_inv ag ks)) ! j = mu ag ! j \<and>
               cov (snd (update_loop linalg_inv ag ks)) ! j = cov ag ! j \<and>
               precision (snd (update_loop linalg_inv ag ks)) ! j = precision ag ! j \<and>
               self_a (snd (update_loop linalg_inv ag ks)) ! j = self_a ag ! j \<and>
               self_b (snd (update_loop linalg_inv ag ks)) ! j = self_b ag ! j))"
  using frame len ks
proof (induction ks arbitrary: ag)
  case Nil
  then show ?case by simp
next
  case (Cons k ks)
  from Cons.prems(11) have k: "0 \<le> k" "k \<in> set (actions lh)"
    and rest: "\<forall>k \<in> set ks. 0 \<le> k \<and> k \<in> set (actions lh) \<and>
               closed_form linalg_inv lam a_0 b_0 d (design_matrix lh k) (targets lh k) \<noteq> None"
    by simp_all
  from Cons.prems(11) obtain m C P A B where
    cf: "closed_form linalg_inv lam a_0 b_0 d (design_matrix lh k) (targets lh k)
           = Some (m, C, P, A, B)"
    by (cases "closed_form linalg_inv lam a_0 b_0 d (design_matrix lh k) (targets lh k)") auto
  define ag1 where "ag1 = ag\<lparr>mu := (mu ag)[nat k := m], cov := (cov ag)[nat k := C],
                       precision := (precision ag)[nat k := P],
                       self_a := (self_a ag)[nat k := A], self_b := (self_b ag)[nat k := B]\<rparr>"
  have u: "update_one linalg_inv ag k = (None, ag1)"
    unfolding ag1_def
    using update_one_closed_form[of ag k linalg_inv m C P A B] inv k cf Cons.prems(1-10)
    by simp
  have kr: "nat k < ds_num_actions lh"
    using ds_inv_action_range[OF inv k(2) k(1)] k(1) by simp
  have f1: "latent_h ag1 = lh" "lambda_prior ag1 = lam" "a0 ag1 = a_0" "b0 ag1 = b_0"
    "latent_dim ag1 = d"
    "length (mu ag1) = ds_num_actions lh" "length (cov ag1) = ds_num_actions lh"
    "length (precision ag1) = ds_num_actions lh" "length (self_a ag1) = ds_num_actions lh"
    "length (self_b ag1) = ds_num_actions lh"
    using Cons.prems(1-10) by (simp_all add: ag1_def)
  note IH = Cons.IH[OF f1 rest]
  have step: "update_loop linalg_inv ag (k # ks) = update_loop linalg_inv ag1 ks"
    by (simp add: u)
  have at_k: "mu ag1 ! nat k = m" "cov ag1 ! nat k = C" "precision ag1 ! nat k = P"
    "self_a ag1 ! nat k = A" "self_b ag1 ! nat k = B"
    using kr Cons.prems(6-10) by (simp_all add: ag1_def)
  have off_k: "\<And>j. j \<noteq> nat k \<Longrightarrow> mu ag1 ! j = mu ag ! j \<and> cov ag1 ! j = cov ag ! j \<and>
      precision ag1 ! j = precision ag ! j \<and> self_a ag1 ! j = self_a ag ! j \<and>
      self_b ag1 ! j = self_b ag ! j"
    by (simp add: ag1_def)
  have hit: "\<And>j. j < ds_num_actions lh \<Longrightarrow> int j \<in> set (k # ks) \<Longrightarrow>
      closed_form linalg_inv lam a_0 b_0 d (design_matrix lh (int j)) (targets lh (int j))
                 = Some (mu (snd (update_loop linalg_inv ag1 ks)) ! j,
                         cov (snd (update_loop linalg_inv ag1 ks)) ! j,
                         precision (snd (update_loop linalg_inv ag1 ks)) ! j,
                         self_a (snd (update_loop linalg_inv ag1 ks)) ! j,
                         self_b (snd (update_loop linalg_inv ag1 ks)) ! j)"
  proof -
    fix j assume j: "j < ds_num_actions lh" and "int j \<in> set (k # ks)"
    then consider "int j \<in> set ks" | "int j \<notin> set ks" "int j = k" by auto
    then show "closed_form linalg_inv lam a_0 b_0 d (design_matrix lh (int j)) (targets lh (int j))
                 = Some (mu (snd (update_loop linalg_inv ag1 ks)) ! j,
                         cov (snd (update_loop linalg_inv ag1 ks)) ! j,
                         precision (snd (update_loop linalg_inv ag1 ks)) ! j,
                         self_a (snd (update_loop linalg_inv ag1 ks)) ! j,
                         self_b (snd (update_loop linalg_inv ag1 ks)) ! j)"
    proof cases
      case 1
      with IH j show ?thesis by blast
    next
      case 2
      then have jk: "j = nat k" by simp
      from IH j 2(1) have "mu (snd (update_loop linalg_inv ag1 ks)) ! j = mu ag1 ! j \<and>
               cov (snd (update_loop linalg_inv ag1 ks)) ! j = cov ag1 ! j \<and>
               precision (snd (update_loop linalg_inv ag1 ks)) ! j = precision ag1 ! j \<and>
               self_a (snd (update_loop linalg_inv ag1 ks)) ! j = self_a ag1 ! j \<and>
               self_b (snd (update_loop linalg_inv ag1 ks)) ! j = self_b ag1 ! j"
        by blast
      with at_k cf 2(2) jk show ?thesis by simp
    qed
  qed
  have miss: "\<And>j. j < ds_num_actions lh \<Longrightarrow> int j \<notin> set (k # ks) \<Longrightarrow>
               mu (snd (update_loop linalg_inv ag1 ks)) ! j = mu ag ! j \<and>
               cov (snd (update_loop linalg_inv ag1 ks)) ! j = cov ag ! j \<and>
               precision (snd (update_loop linalg_inv ag1 ks)) ! j = precision ag ! j \<and>
               self_a (snd (update_loop linalg_inv ag1 ks)) ! j = self_a ag ! j \<and>
               self_b (snd (update_loop linalg_inv ag1 ks)) ! j = self_b ag ! j"
  proof -
    fix j assume j: "j < ds_num_actions lh" and n: "int j \<notin> set (k # ks)"
    then have nk: "j \<noteq> nat k" and nks: "int j \<notin> set ks" using k(1) by auto
    from IH j nks have "mu (snd (update_loop linalg_inv ag1 ks)) ! j = mu ag1 ! j \<and>
               cov (snd (update_loop linalg_inv ag1 ks)) ! j = cov ag1 ! j \<and>
               precision (snd (update_loop linalg_inv ag1 ks)) ! j = precision ag1 ! j \<and>
               self_a (snd (update_loop linalg_inv ag1 ks)) ! j = self_a ag1 ! j \<and>
               self_b (snd (update_loop linalg_inv ag1 ks)) ! j = self_b ag1 ! j"
      by blast
    with off_k[OF nk]
    show "mu (snd (update_loop linalg_inv ag1 ks)) ! j = mu ag ! j \<and>
               cov (snd (update_loop linalg_inv ag1 ks)) ! j = cov ag ! j \<and>
               precision (snd (update_loop linalg_inv ag1 ks)) ! j = precision ag ! j \<and>
               self_a (snd (update_loop linalg_inv ag1 ks)) ! j = self_a ag ! j \<and>
               self_b (snd (update_loop linalg_inv ag1 ks)) ! j = self_b ag ! j"
      by simp
  qed
  have "fst (update_loop linalg_inv ag1 ks) = None"
    "latent_h (snd (update_loop linalg_inv ag1 ks)) = lh"
    using IH by blast+
  with hit miss show ?case
    unfolding step by blast
qed


lemma set_np_unique: "set (np_unique xs) = set xs"
  by (simp add: np_unique_def)

text \<open>
  C1 (posterior refresh): on a latent buffer that satisfies the buffer invariant, with rows
  of \<open>latent_dim\<close> entries and actions in \<open>[0, num_actions)\<close>, and with an invertible
  precision matrix for every action present, \<^verbatim>\<open>_update_actions\<close> returns without raising;
  for every action that has a row in the buffer it leaves \<open>precision = Z\<^sup>T Z + lambda I\<close>,
  \<open>cov\<close> the inverse of \<open>precision\<close>, \<open>mu = cov (Z\<^sup>T y)\<close>, \<open>a = a0 + rows(Z) / 2\<close> and
  \<open>b = b0 + 0.5 y\<^sup>T y - 0.5 mu\<^sup>T (precision mu)\<close>, where \<open>Z\<close> stacks the latent vectors and
  \<open>y\<close> the rewards of the rows whose action it is; and for every action without a row it
  leaves all five fields as they were.
\<close>

theorem update_actions_closed_form:
  assumes inv: "ds_inv (latent_h ag)"
    and width: "ds_width (latent_h ag) = latent_dim ag"
    and nonneg: "list_all (\<lambda>k. 0 \<le> k) (actions (latent_h ag))"
    and len: "length (mu ag) = ds_num_actions (latent_h ag)"
      "length (cov ag) = ds_num_actions (latent_h ag)"
      "length (precision ag) = ds_num_actions (latent_h ag)"
      "length (self_a ag) = ds_num_actions (latent_h ag)"
      "length (self_b ag) = ds_num_actions (latent_h ag)"
    and invertible:
      "list_all (\<lambda>k. linalg_inv
                       (np_add (np_dot_mm (np_transpose (design_matrix (latent_h ag) k))
                                  (design_matrix (latent_h ag) k))
                          (np_scale (lambda_prior ag) (np_eye (latent_dim ag)))) \<noteq> None)
         (actions (latent_h ag))"
  shows "let ag' = snd (update_actions linalg_inv ag)
         in fst (update_actions linalg_inv ag) = None \<and>
            (\<forall>j < ds_num_actions (latent_h ag).
               let Z = design_matrix (latent_h ag) (int j);
                   y = targets (latent_h ag) (int j)
               in (int j \<in> set (actions (latent_h ag)) \<longrightarrow>
                     precision ag' ! j
                       = np_add (np_dot_mm (np_transpose Z) Z)
                           (np_scale (lambda_prior ag) (np_eye (latent_dim ag))) \<and>
                     linalg_inv (precision ag' ! j) = Some (cov ag' ! j) \<and>
                     mu ag' ! j = np_dot_mv (cov ag' ! j) (np_dot_mv (np_transpose Z) y) \<and>
                     self_a ag' ! j = a0 ag + real (length Z) / 2 \<and>
                     self_b ag' ! j
                       = b0 ag + 0.5 * np_dot_vv y y
                           - 0.5 * np_dot_vv (mu ag' ! j) (np_dot_mv (precision ag' ! j) (mu ag' ! j))) \<and>
                  (int j \<notin> set (actions (latent_h ag)) \<longrightarrow>
                     mu ag' ! j = mu ag ! j \<and> cov ag' ! j = cov ag ! j \<and>
                     precision ag' ! j = precision ag ! j \<and>
                     self_a ag' ! j = self_a ag ! j \<and> self_b ag' ! j = self_b ag ! j))"
proof -
  define lh where "lh = latent_h ag"
  define ag' where "ag' = snd (update_loop linalg_inv ag (np_unique (actions lh)))"
  have ks: "\<forall>k \<in> set (np_unique (actions lh)). 0 \<le> k \<and> k \<in> set (actions lh) \<and>
      closed_form linalg_inv (lambda_prior ag) (a0 ag) (b0 ag) (latent_dim ag)
        (design_matrix lh k) (targets lh k) \<noteq> None"
    using nonneg invertible
    by (auto simp: set_np_unique list_all_iff lh_def closed_form_def Let_def split: option.splits)
  have inv': "ds_inv lh" using inv by (simp add: lh_def)
  have fr: "latent_h ag = lh" by (simp add: lh_def)
  note len' = len[folded lh_def]
  note L' = update_loop_closed_form[OF inv' fr refl refl refl refl len' ks, folded ag'_def,
      unfolded set_np_unique]
  have hit: "\<And>j. j < ds_num_actions lh \<Longrightarrow> int j \<in> set (actions lh) \<Longrightarrow>
      precision ag' ! j
        = np_add (np_dot_mm (np_transpose (design_matrix lh (int j))) (design_matrix lh (int j)))
            (np_scale (lambda_prior ag) (np_eye (latent_dim ag))) \<and>
      linalg_inv (precision ag' ! j) = Some (cov ag' ! j) \<and>
      mu ag' ! j = np_dot_mv (cov ag' ! j)
                     (np_dot_mv (np_transpose (design_matrix lh (int j))) (targets lh (int j))) \<and>
      self_a ag' ! j = a0 ag + real (length (design_matrix lh (int j))) / 2 \<and>
      self_b ag' ! j
        = b0 ag + 0.5 * np_dot_vv (targets lh (int j)) (targets lh (int j))
            - 0.5 * np_dot_vv (mu ag' ! j) (np_dot_mv (precision ag' ! j) (mu ag' ! j))"
  proof -
    fix j assume "j < ds_num_actions lh" "int j \<in> set (actions lh)"
    with L' have "closed_form linalg_inv (lambda_prior ag) (a0 ag) (b0 ag) (latent_dim ag)
                   (design_matrix lh (int j)) (targets lh (int j))
                 = Some (mu ag' ! j, cov ag' ! j, precision ag' ! j, self_a ag' ! j, self_b ag' ! j)"
      by blast
    then show "precision ag' ! j
        = np_add (np_dot_mm (np_transpose (design_matrix lh (int j))) (design_matrix lh (int j)))
            (np_scale (lambda_prior ag) (np_eye (latent_dim ag))) \<and>
      linalg_inv (precision ag' ! j) = Some (cov ag' ! j) \<and>
      mu ag' ! j = np_dot_mv (cov ag' ! j)
                     (np_dot_mv (np_transpose (design_matrix lh (int j))) (targets lh (int j))) \<and>
      self_a ag' ! j = a0 ag + real (length (design_matrix lh (int j))) / 2 \<and>
      self_b ag' ! j
        = b0 ag + 0.5 * np_dot_vv (targets lh (int j)) (targets lh (int j))
            - 0.5 * np_dot_vv (mu ag' ! j) (np_dot_mv (precision ag' ! j) (mu ag' ! j))"
      by (auto simp: closed_form_def Let_def split: option.splits)
  qed
  from L' hit show ?thesis
    unfolding Let_def update_actions_def lh_def[symmetric] ag'_def[symmetric]
    by blast
qed


lemma refresh_agent_fields:
  "latent_h refresh_agent = (new_dataset 1 2 (- 1) False)
                  \<lparr>contexts := Some [[1], [2]], rewards := Some [[3, 0], [5, 0]],
                   actions := [0, 0], user_ids := [0, 0]\<rparr>"
  "latent_dim refresh_agent = 1" "lambda_prior refresh_agent = 1 / 4"
  "a0 refresh_agent = 6" "b0 refresh_agent = 6"
  "mu refresh_agent = [[0], [0]]" "cov refresh_agent = [[[4]], [[4]]]"
  "precision refresh_agent = [[[1 / 4]], [[1 / 4]]]"
  "self_a refresh_agent = [6, 6]" "self_b refresh_agent = [6, 6]"
  by (simp_all add: refresh_agent_def new_agent_def demo_args_def initial_latent_dim_def Let_def
      np_scale_def np_eye_def np_zeros_def numeral_2_eq_2)

lemma refresh_design:
  "design_matrix (latent_h refresh_agent) 0 = [[1], [2]]"
  "targets (latent_h refresh_agent) 0 = [3, 5]"
  "np_add (np_dot_mm (np_transpose [[1], [2]]) [[1], [2]]) (np_scale (1 / 4) (np_eye (Suc 0))) = [[21 / 4]]"
  by (simp_all add: refresh_agent_fields design_matrix_def targets_def new_dataset_def
      np_add_def np_dot_mm_def np_transpose_def np_dot_vv_def np_scale_def np_eye_def)

theorem update_actions_closed_form_witness:
  "ds_inv (latent_h refresh_agent) \<and>
   ds_width (latent_h refresh_agent) = latent_dim refresh_agent \<and>
   fst (update_actions inv_1x1 refresh_agent) = None \<and>
   precision (snd (update_actions inv_1x1 refresh_agent)) ! 0 = [[21 / 4]] \<and>
   cov (snd (update_actions inv_1x1 refresh_agent)) ! 0 = [[4 / 21]] \<and>
   mu (snd (update_actions inv_1x1 refresh_agent)) ! 0 = [52 / 21] \<and>
   self_a (snd (update_actions inv_1x1 refresh_agent)) ! 0 = 7 \<and>
   self_b (snd (update_actions inv_1x1 refresh_agent)) ! 0 = 145 / 21 \<and>
   mu (snd (update_actions inv_1x1 refresh_agent)) ! 1 = [0] \<and>
   self_b (snd (update_actions inv_1x1 refresh_agent)) ! 1 = 6"
proof -
  have h: "ds_inv (latent_h refresh_agent)"
    "ds_width (latent_h refresh_agent) = latent_dim refresh_agent"
    "list_all (\<lambda>k. 0 \<le> k) (actions (latent_h refresh_agent))"
    "length (mu refresh_agent) = ds_num_actions (latent_h refresh_agent)"
    "length (cov refresh_agent) = ds_num_actions (latent_h refresh_agent)"
    "length (precision refresh_agent) = ds_num_actions (latent_h refresh_agent)"
    "length (self_a refresh_agent) = ds_num_actions (latent_h refresh_agent)"
    "length (self_b refresh_agent) = ds_num_actions (latent_h refresh_agent)"
    by (simp_all add: refresh_agent_fields ds_inv_def ds_width_def new_dataset_def py_index_def)
  have a: "actions (latent_h refresh_agent) = [0, 0]" "ds_num_actions (latent_h refresh_agent) = 2"
    by (simp_all add: refresh_agent_fields new_dataset_def)
  have i: "list_all (\<lambda>k. inv_1x1
                       (np_add (np_dot_mm (np_transpose (design_matrix (latent_h refresh_agent) k))
                                  (design_matrix (latent_h refresh_agent) k))
                          (np_scale (lambda_prior refresh_agent) (np_eye (latent_dim refresh_agent)))) \<noteq> None)
         (actions (latent_h refresh_agent))"
    unfolding a by (simp add: refresh_design refresh_agent_fields(2-) inv_1x1_def)
  note t = update_actions_closed_form[OF h i, unfolded Let_def a]
  have p: "(0::nat) < 2" "int 0 \<in> set [0, 0::int]" "(1::nat) < 2" "int 1 \<notin> set [0, 0::int]"
    by simp_all
  have d3: "np_add (np_dot_mm (np_transpose [[1], [2]]) [[1], [2]]) (np_scale (1 / 4) (np_eye 1))
              = [[21 / 4]]"
    using refresh_design(3) by simp
  note T0 = t[THEN conjunct2, rule_format, of 0, OF p(1), THEN conjunct1, rule_format, OF p(2),
      unfolded of_nat_0 refresh_design(1,2) refresh_agent_fields(2-5) d3]
  note T1 = t[THEN conjunct2, rule_format, of 1, OF p(3), THEN conjunct2, rule_format, OF p(4),
      unfolded refresh_agent_fields(6-)]
  note P0 = T0[THEN conjunct1]
  note C0 = T0[THEN conjunct2, THEN conjunct1, unfolded P0]
  note M0 = T0[THEN conjunct2, THEN conjunct2, THEN conjunct1]
  note A0 = T0[THEN conjunct2, THEN conjunct2, THEN conjunct2, THEN conjunct1]
  note B0 = T0[THEN conjunct2, THEN conjunct2, THEN conjunct2, THEN conjunct2]
  have c0: "cov (snd (update_actions inv_1x1 refresh_agent)) ! 0 = [[4 / 21]]"
    using C0 by (simp add: inv_1x1_def)
  have m0: "mu (snd (update_actions inv_1x1 refresh_agent)) ! 0 = [52 / 21]"
    unfolding M0 c0 by (simp add: np_dot_mv_def np_transpose_def np_dot_vv_def)
  have a0': "self_a (snd (update_actions inv_1x1 refresh_agent)) ! 0 = 7"
    unfolding A0 by simp
  have b0': "self_b (snd (update_actions inv_1x1 refresh_agent)) ! 0 = 145 / 21"
    unfolding B0 unfolding m0 P0 by (simp add: np_dot_mv_def np_dot_vv_def)
  have t1: "mu (snd (update_actions inv_1x1 refresh_agent)) ! 1 = [0]"
    "self_b (snd (update_actions inv_1x1 refresh_agent)) ! 1 = 6"
    using T1 by simp_all
  from t[THEN conjunct1] h(1,2) P0 a0' c0 m0 b0' t1 show ?thesis by simp
qed

end
